theory Spec2Isabelle
  imports Complex_Main "HOL-Library.Stream" "HOL-Library.Multiset"
begin

section \<open>Python values\<close>

text \<open>
  The seeder is a Python script. A Python \<open>str\<close> is a sequence of Unicode code points, and
  the script's tables hold Arabic and accented Latin text, so a string is modelled as the
  list of its code points. ASCII literals are written with \<open>asc\<close>; other literals are
  written as code-point lists.
\<close>

type_synonym pystr = "nat list"

definition asc :: "string \<Rightarrow> pystr" where
  "asc s = map of_char s"

text \<open>\<open>str(n)\<close> for a non-negative integer: its decimal digits.\<close>

fun str_nat :: "nat \<Rightarrow> pystr" where
  "str_nat n = (if n < 10 then [48 + n] else str_nat (n div 10) @ [48 + n mod 10])"

declare str_nat.simps [simp del]

definition str_int :: "int \<Rightarrow> pystr" where
  "str_int i = (if i < 0 then 45 # str_nat (nat (- i)) else str_nat (nat i))"

text \<open>\<open>s.zfill(width)\<close> for a string of digits: zeros are added on the left.\<close>

definition zfill :: "nat \<Rightarrow> pystr \<Rightarrow> pystr" where
  "zfill width s = replicate (width - length s) 48 @ s"

text \<open>\<open>needle in haystack\<close> on strings is the substring test.\<close>

fun is_prefix :: "pystr \<Rightarrow> pystr \<Rightarrow> bool" where
  "is_prefix [] ys = True"
| "is_prefix (x # xs) [] = False"
| "is_prefix (x # xs) (y # ys) = (x = y \<and> is_prefix xs ys)"

fun contains :: "pystr \<Rightarrow> pystr \<Rightarrow> bool" where
  "contains needle [] = (needle = [])"
| "contains needle (y # ys) = (is_prefix needle (y # ys) \<or> contains needle ys)"

text \<open>
  \<open>str.lower()\<close> and \<open>str.upper()\<close>, for the letters of ASCII and Latin-1 that have their
  counterpart in Latin-1. These are the only cased letters in the script's tables (Arabic
  letters have no case); a cased letter from elsewhere in Unicode is left as it is.
\<close>

definition lower_cp :: "nat \<Rightarrow> nat" where
  "lower_cp c =
     (if (65 \<le> c \<and> c \<le> 90) \<or> (192 \<le> c \<and> c \<le> 222 \<and> c \<noteq> 215) then c + 32 else c)"

definition lower :: "pystr \<Rightarrow> pystr" where
  "lower s = map lower_cp s"

definition upper_cp :: "nat \<Rightarrow> nat" where
  "upper_cp c =
     (if (97 \<le> c \<and> c \<le> 122) \<or> (224 \<le> c \<and> c \<le> 254 \<and> c \<noteq> 247) then c - 32 else c)"

definition upper :: "pystr \<Rightarrow> pystr" where
  "upper s = map upper_cp s"

text \<open>\<open>s.replace(c, '')\<close> for a one-character string \<open>c\<close>.\<close>

definition remove_char :: "nat \<Rightarrow> pystr \<Rightarrow> pystr" where
  "remove_char c s = filter (\<lambda>x. x \<noteq> c) s"

text \<open>
  \<open>s.split()\<close>: the maximal runs of characters that are not whitespace. The whitespace
  code points are those for which \<open>str.isspace\<close> holds.
\<close>

definition is_space :: "nat \<Rightarrow> bool" where
  "is_space c \<longleftrightarrow>
     (9 \<le> c \<and> c \<le> 13) \<or> (28 \<le> c \<and> c \<le> 32) \<or> c = 133 \<or> c = 160 \<or> c = 5760
     \<or> (8192 \<le> c \<and> c \<le> 8202) \<or> c = 8232 \<or> c = 8233 \<or> c = 8239 \<or> c = 8287
     \<or> c = 12288"

fun split_words :: "pystr \<Rightarrow> pystr \<Rightarrow> pystr list" where
  "split_words cur [] = (if cur = [] then [] else [cur])"
| "split_words cur (c # cs) =
     (if is_space c then (if cur = [] then split_words [] cs else cur # split_words [] cs)
      else split_words (cur @ [c]) cs)"

definition py_split :: "pystr \<Rightarrow> pystr list" where
  "py_split s = split_words [] s"

subsection \<open>Numbers and time\<close>

text \<open>
  Python's floats are idealised as rationals: prices, amounts and coordinates are of type
  \<open>rat\<close>, and \<open>round(x, n)\<close> rounds to \<open>n\<close> decimal places, a tie going to the even
  neighbour. No property below depends on how a tie is broken.
\<close>

definition round_half_even :: "rat \<Rightarrow> int" where
  "round_half_even x =
     (let f = \<lfloor>x\<rfloor>; d = x - of_int f
      in if d < 1 / 2 then f else if 1 / 2 < d then f + 1 else if even f then f else f + 1)"

definition py_round :: "rat \<Rightarrow> nat \<Rightarrow> rat" where
  "py_round x n = of_int (round_half_even (x * 10 ^ n)) / 10 ^ n"

text \<open>
  A \<open>datetime\<close> is the number of seconds since the epoch; \<open>timedelta(days=d)\<close> and
  \<open>timedelta(hours=h)\<close> are numbers of seconds.
\<close>

type_synonym datetime = int

definition timedelta_days :: "int \<Rightarrow> int" where
  "timedelta_days d = d * 86400"

definition timedelta_hours :: "int \<Rightarrow> int" where
  "timedelta_hours h = h * 3600"

section \<open>The random number generator\<close>

text \<open>
  The script draws from the process-wide generator of the \<open>random\<close> module and from
  Faker's generator. The two are modelled as one infinite tape of the natural numbers that
  are going to be produced, read in program order; every drawing function takes the tape
  and returns the rest of it. \<open>random.randint(a, b)\<close> reduces a draw into \<open>[a, b]\<close>,
  \<open>random.choice(xs)\<close> reduces it into an index of \<open>xs\<close> (every call site in the script
  passes a non-empty list), \<open>random.random()\<close> reduces it to a fraction in \<open>[0, 1)\<close> with
  53 bits, and \<open>random.uniform(a, b)\<close> is \<open>a + (b - a) * random()\<close>.
\<close>

type_synonym rng = "nat stream"

definition randint :: "int \<Rightarrow> int \<Rightarrow> rng \<Rightarrow> int \<times> rng" where
  "randint a b g = (a + int (shd g) mod (b - a + 1), stl g)"

definition choice :: "'a list \<Rightarrow> rng \<Rightarrow> 'a \<times> rng" where
  "choice xs g = (xs ! (shd g mod length xs), stl g)"

definition random_float :: "rng \<Rightarrow> rat \<times> rng" where
  "random_float g = (of_nat (shd g mod 2 ^ 53) / 2 ^ 53, stl g)"

definition uniform :: "rat \<Rightarrow> rat \<Rightarrow> rng \<Rightarrow> rat \<times> rng" where
  "uniform a b g = (let (u, g') = random_float g in (a + (b - a) * u, g'))"

text \<open>
  \<open>random.sample(population, k)\<close> for a short population: \<open>k\<close> times, pick a position
  of the pool of remaining elements, emit the element there, and move the last element of
  the pool into the hole. It raises \<open>ValueError\<close> when \<open>k\<close> exceeds the population
  (\<open>None\<close> here).
\<close>

fun sample_loop :: "'a list \<Rightarrow> nat \<Rightarrow> rng \<Rightarrow> 'a list \<times> rng" where
  "sample_loop pool 0 g = ([], g)"
| "sample_loop pool (Suc k) g =
     (let j = shd g mod length pool;
          x = pool ! j;
          pool' = butlast (pool[j := last pool]);
          (xs, g') = sample_loop pool' k (stl g)
      in (x # xs, g'))"

definition sample :: "'a list \<Rightarrow> nat \<Rightarrow> rng \<Rightarrow> ('a list \<times> rng) option" where
  "sample population k g =
     (if k \<le> length population then Some (sample_loop population k g) else None)"

text \<open>
  \<open>random.shuffle(x)\<close>: for \<open>i\<close> from the last index down to 1, swap \<open>x[i]\<close> with
  \<open>x[j]\<close> for a random \<open>j \<le> i\<close>.
\<close>

fun shuffle_loop :: "nat \<Rightarrow> 'a list \<Rightarrow> rng \<Rightarrow> 'a list \<times> rng" where
  "shuffle_loop 0 x g = (x, g)"
| "shuffle_loop (Suc i) x g =
     (let j = shd g mod (Suc i + 1)
      in shuffle_loop i (x[Suc i := x ! j, j := x ! Suc i]) (stl g))"

definition shuffle :: "'a list \<Rightarrow> rng \<Rightarrow> 'a list \<times> rng" where
  "shuffle x g = shuffle_loop (length x - 1) x g"

text \<open>
  \<open>fake.date_time_between(start_date, end_date='now')\<close> with a start \<open>days\<close> days back:
  a whole second of the closed interval.
\<close>

definition date_time_between :: "datetime \<Rightarrow> int \<Rightarrow> rng \<Rightarrow> datetime \<times> rng" where
  "date_time_between now days g =
     (now - timedelta_days days + int (shd g) mod (timedelta_days days + 1), stl g)"

section \<open>The constant tables\<close>

text \<open>
  The name pools, the regions with their centre and their cities, and the product
  categories with their keywords in Arabic, English and French: \<open>PRODUCT_CATEGORIES\<close> is
  a dictionary, iterated in the order of its keys in the source, so it is an association
  list. A region is a record with the keys of the region dictionaries.
\<close>

record region =
  r_name :: pystr
  r_lat :: rat
  r_lng :: rat
  r_cities :: "pystr list"

definition MOROCCAN_FIRST_NAMES :: "pystr list" where
  "MOROCCAN_FIRST_NAMES =
    [asc ''Ahmed'', asc ''Mohammed'', asc ''Fatima'', asc ''Aicha'', asc ''Hassan'',
     asc ''Youssef'', asc ''Sanae'', asc ''Karim'', asc ''Laila'', asc ''Omar'',
     asc ''Nadia'', asc ''Rachid'', asc ''Samira'', asc ''Khalid'', asc ''Souad'',
     asc ''Mehdi'', asc ''Salma'', asc ''Amine'', asc ''Nour'', asc ''Reda'', asc ''Imane'',
     asc ''Bilal'', asc ''Houda'', asc ''Anass'', asc ''Sara'', asc ''Hamza'',
     asc ''Zineb'', asc ''Yassine'', asc ''Meriem'', asc ''Adil'', asc ''Nabila'',
     asc ''Tarik'', asc ''Hafsa'', asc ''Walid'', asc ''Khadija'', asc ''Said'',
     asc ''Amina'', asc ''Jamal'', asc ''Latifa'', asc ''Nabil'']"

definition MOROCCAN_LAST_NAMES :: "pystr list" where
  "MOROCCAN_LAST_NAMES =
    [asc ''Alaoui'', asc ''Benali'', asc ''Bennani'', asc ''Berrada'', asc ''Chraibi'',
     asc ''El Fassi'', asc ''El Idrissi'', asc ''El Malki'', asc ''El Ouazzani'',
     asc ''Fassi'', asc ''Filali'', asc ''Hajji'', asc ''Hamdaoui'', asc ''Idrissi'',
     asc ''Kettani'', asc ''Lahlou'', asc ''Lamrani'', asc ''Mansouri'', asc ''Mekouar'',
     asc ''Ouazzani'', asc ''Rahali'', asc ''Saadi'', asc ''Tazi'', asc ''Touimi'',
     asc ''Zahiri'', asc ''Zouhair'', asc ''Amrani'', asc ''Bouazza'', asc ''Cherkaoui'',
     asc ''Dahbi'', asc ''El Amrani'', asc ''El Bakkali'', asc ''El Haddadi'',
     asc ''El Harrak'', asc ''El Kettani'', asc ''El Malki'', asc ''El Ouazzani'',
     asc ''El Yousfi'', asc ''Fadili'', asc ''Fassi'', asc ''Hajji'', asc ''Hamdaoui'']"

definition MOROCCAN_REGIONS :: "region list" where
  "MOROCCAN_REGIONS =
    [\<lparr>r_name = asc ''Casablanca-Settat'',
       r_lat = 33.5731, r_lng = (-7.5898),
       r_cities = [asc ''Casablanca'', asc ''Settat'', asc ''Mohammedia'',
         asc ''El Jadida'']\<rparr>,
     \<lparr>r_name = asc ''Rabat-Sal'' @ [233] @ asc ''-K'' @ [233] @ asc ''nitra'',
       r_lat = 34.0209, r_lng = (-6.8416),
       r_cities = [asc ''Rabat'', asc ''Sal'' @ [233], asc ''K'' @ [233] @ asc ''nitra'',
                   asc ''T'' @ [233] @ asc ''mara'']\<rparr>,
     \<lparr>r_name = asc ''F'' @ [232] @ asc ''s-Mekn'' @ [232] @ asc ''s'',
       r_lat = 34.0331, r_lng = (-5.0003),
       r_cities = [asc ''F'' @ [232] @ asc ''s'', asc ''Mekn'' @ [232] @ asc ''s'',
                   asc ''Sefrou'', asc ''Ifrane'']\<rparr>,
     \<lparr>r_name = asc ''Marrakech-Safi'',
       r_lat = 31.6295, r_lng = (-7.9811),
       r_cities = [asc ''Marrakech'', asc ''Safi'', asc ''Essaouira'',
                   asc ''El Kel'' @ [226] @ asc ''a'']\<rparr>,
     \<lparr>r_name = asc ''Tanger-T'' @ [233] @ asc ''touan-Al Hoce'' @ [239] @ asc ''ma'',
       r_lat = 35.7595, r_lng = (-5.834),
       r_cities = [asc ''Tanger'', asc ''T'' @ [233] @ asc ''touan'',
                   asc ''Al Hoce'' @ [239] @ asc ''ma'', asc ''Larache'']\<rparr>,
     \<lparr>r_name = asc ''Oriental'',
       r_lat = 34.6814, r_lng = (-1.9076),
       r_cities = [asc ''Oujda'', asc ''Nador'', asc ''Berkane'', asc ''Taourirt'']\<rparr>,
     \<lparr>r_name = asc ''B'' @ [233] @ asc ''ni Mellal-Kh'' @ [233] @ asc ''nifra'',
       r_lat = 32.3373, r_lng = (-6.3498),
       r_cities = [asc ''B'' @ [233] @ asc ''ni Mellal'',
                   asc ''Kh'' @ [233] @ asc ''nifra'', asc ''Azilal'',
                                 asc ''Khouribga'']\<rparr>,
     \<lparr>r_name = asc ''Souss-Massa'',
       r_lat = 30.4278, r_lng = (-9.5981),
       r_cities = [asc ''Agadir'', asc ''Taroudant'', asc ''Tiznit'',
         asc ''Oulad Teima'']\<rparr>,
     \<lparr>r_name = asc ''Dr'' @ [226] @ asc ''a-Tafilalet'',
       r_lat = 31.6295, r_lng = (-4.7278),
       r_cities = [asc ''Errachidia'', asc ''Ouarzazate'', asc ''Zagora'',
         asc ''Tinghir'']\<rparr>,
     \<lparr>r_name = asc ''Guelmim-Oued Noun'',
       r_lat = 28.9869, r_lng = (-10.0528),
       r_cities = [asc ''Guelmim'', asc ''Sidi Ifni'', asc ''Tan-Tan'', asc ''Assa'']\<rparr>,
     \<lparr>r_name = asc ''La'' @ [226] @ asc ''youne-Sakia El Hamra'',
       r_lat = 27.1536, r_lng = (-13.2033),
       r_cities = [asc ''La'' @ [226] @ asc ''youne'', asc ''Boujdour'', asc ''Tarfaya'',
                   asc ''Smara'']\<rparr>,
     \<lparr>r_name = asc ''Dakhla-Oued Ed-Dahab'',
       r_lat = 23.6849, r_lng = (-15.9582),
       r_cities = [asc ''Dakhla'', asc ''Aousserd'', asc ''Bir Anzarane'']\<rparr>]"

definition PRODUCT_CATEGORIES :: "(pystr \<times> pystr list) list" where
  "PRODUCT_CATEGORIES =
    [(asc ''Argan'', [[1586, 1610, 1578, 32, 1575, 1604, 1571, 1585, 1603, 1575, 1606],
                       asc ''Argan Oil'',
        asc ''Huile d'Argan'']),
     (asc ''Olive'', [[1586, 1610, 1578, 32, 1575, 1604, 1586, 1610, 1578, 1608, 1606],
                       asc ''Olive Oil'',
        asc ''Huile d'Olive'']),
     (asc ''Honey'', [[1593, 1587, 1604], asc ''Honey'', asc ''Miel'']),
     (asc ''Dates'', [[1578, 1605, 1585], asc ''Dates'', asc ''Dattes'']),
     (asc ''Saffron'', [[1586, 1593, 1601, 1585, 1575, 1606], asc ''Saffron'', asc ''Safran'']),
     (asc ''Almonds'', [[1604, 1608, 1586], asc ''Almonds'', asc ''Amandes'']),
     (asc ''Spices'', [[1576, 1607, 1575, 1585, 1575, 1578], asc ''Spices'',
                        [201] @ asc ''pices'']),
     (asc ''Couscous'', [[1603, 1587, 1603, 1587], asc ''Couscous'', asc ''Couscous'']),
     (asc ''Tea'', [[1588, 1575, 1610], asc ''Tea'', asc ''Th'' @ [233]]),
     (asc ''Ceramics'', [[1601, 1582, 1575, 1585], asc ''Ceramics'',
                          asc ''C'' @ [233] @ asc ''ramique'']),
     (asc ''Wool'', [[1589, 1608, 1601], asc ''Wool'', asc ''Laine'']),
     (asc ''Leather'', [[1580, 1604, 1583], asc ''Leather'', asc ''Cuir''])]"

section \<open>Documents and storage\<close>

text \<open>
  What the script takes from outside its own source is gathered in one record: Python's
  built-in string hash, the bcrypt hash of the shared password, the clock, Faker's street
  names (as functions of a draw), SHA-256 as a hex digest, and the printed forms of an
  object id and of a datetime.
\<close>

type_synonym oid = nat

record env =
  py_hash :: "pystr \<Rightarrow> int"
  hash_password :: "pystr \<Rightarrow> pystr"
  datetime_now :: datetime
  fr_street_name :: "nat \<Rightarrow> pystr"
  en_street_name :: "nat \<Rightarrow> pystr"
  sha256_hexdigest :: "pystr \<Rightarrow> pystr"
  str_oid :: "oid \<Rightarrow> pystr"
  str_datetime :: "datetime \<Rightarrow> pystr"

text \<open>
  The documents of the five collections. A field keeps its name in the script, after a
  letter for its collection (several collections have a \<open>name\<close> or a \<open>createdAt\<close>).
  A field that may hold \<open>None\<close> is an option.
\<close>

datatype role = ADMIN | PRODUCER | BUYER

datatype status = INITIATED | ESCROWED | SHIPPED | DELIVERED | SETTLED | FAILED

record user =
  u_email :: pystr
  u_phone :: pystr
  u_passwordHash :: pystr
  u_role :: role
  u_createdAt :: datetime
  u_updatedAt :: datetime

record cooperative =
  c_name :: pystr
  c_userId :: "oid option"
  c_registrationNumber :: pystr
  c_region :: pystr
  c_latitude :: rat
  c_longitude :: rat
  c_address :: pystr
  c_createdAt :: datetime
  c_updatedAt :: datetime

record product =
  p_cooperativeId :: oid
  p_name :: pystr
  p_description :: pystr
  p_price :: rat
  p_unit :: pystr
  p_stockQuantity :: int
  p_imageUrl :: "pystr option"
  p_imageUrls :: "pystr list"
  p_deletedAt :: "datetime option"
  p_createdAt :: datetime
  p_updatedAt :: datetime

record transaction =
  t_buyerId :: oid
  t_sellerId :: oid
  t_productId :: oid
  t_quantity :: int
  t_amount :: rat
  t_fee :: rat
  t_totalAmount :: rat
  t_status :: status
  t_escrowTransactionId :: "pystr option"
  t_qrSignature :: "pystr option"
  t_settledAt :: "datetime option"
  t_createdAt :: datetime
  t_updatedAt :: datetime

record transaction_log =
  l_transactionId :: oid
  l_status :: status
  l_message :: pystr
  l_apiResponse :: "(pystr option \<times> pystr option) option"
  l_createdAt :: datetime

text \<open>
  A collection is the list of its documents in insertion order, each with the \<open>_id\<close> the
  store gave it. The store hands out fresh ids from a counter. The field for the
  collection \<open>db.users\<close> is \<open>db_users\<close>, and so on.
\<close>

type_synonym 'a collection = "(oid \<times> 'a) list"

record database =
  db_users :: "user collection"
  db_cooperatives :: "cooperative collection"
  db_products :: "product collection"
  db_transactions :: "transaction collection"
  db_transactionlogs :: "transaction_log collection"
  next_id :: oid

text \<open>
  The exceptions that end a run of the script through the store: the \<open>TypeError\<close> of
  \<open>insert_many\<close> and the \<open>ValueError\<close> of \<open>range\<close> with the step 0.
\<close>

datatype error = TypeError | ValueError

text \<open>
  What an insertion that the store accepts does: the documents are appended with fresh ids,
  which are returned in the order of the documents.
\<close>

definition append_documents ::
  "'a list \<Rightarrow> 'a collection \<times> oid \<Rightarrow> ('a collection \<times> oid) \<times> oid list" where
  "append_documents docs st =
     (case st of (coll, n) \<Rightarrow>
        ((coll @ zip [n..<n + length docs] docs, n + length docs), [n..<n + length docs]))"

text \<open>
  \<open>insert_many(docs)\<close> of the driver refuses an empty list of documents: it raises
  \<open>TypeError\<close> (documents must be a non-empty list) and stores nothing. Any other list is
  appended, and \<open>result.inserted_ids\<close> are the new ids.
\<close>

definition insert_many ::
  "'a list \<Rightarrow> 'a collection \<times> oid \<Rightarrow> error + ('a collection \<times> oid) \<times> oid list" where
  "insert_many docs st = (if docs = [] then Inl TypeError else Inr (append_documents docs st))"

text \<open>
  The script inserts in batches: \<open>for i in range(0, len(docs), batch_size)\<close> over the
  slices \<open>docs[i:i + batch_size]\<close>, each passed to \<open>insert_many\<close>, collecting the ids. An
  exception of \<open>insert_many\<close> ends the loop; \<open>range\<close> raises \<open>ValueError\<close> for the step 0.
\<close>

function insert_batches ::
  "nat \<Rightarrow> 'a list \<Rightarrow> 'a collection \<times> oid \<Rightarrow> error + ('a collection \<times> oid) \<times> oid list" where
  "insert_batches batch_size docs st =
     (if batch_size = 0 then Inl ValueError
      else if docs = [] then Inr (st, [])
      else case insert_many (take batch_size docs) st of
             Inl err \<Rightarrow> Inl err
           | Inr (st1, ids) \<Rightarrow>
               (case insert_batches batch_size (drop batch_size docs) st1 of
                  Inl err \<Rightarrow> Inl err
                | Inr (st2, ids') \<Rightarrow> Inr (st2, ids @ ids')))"
  by pat_completeness auto
termination
  by (relation "measure (\<lambda>(b, docs, st). length docs)") auto

declare insert_batches.simps [simp del]

text \<open>\<open>find_one(filter)\<close> is the first matching document; \<open>.limit(n)\<close> keeps the first
  \<open>n\<close> results, and a limit of 0 is no limit.\<close>

definition find_one :: "(oid \<times> 'a \<Rightarrow> bool) \<Rightarrow> 'a collection \<Rightarrow> (oid \<times> 'a) option" where
  "find_one flt coll = List.find flt coll"

definition limit :: "nat \<Rightarrow> 'a list \<Rightarrow> 'a list" where
  "limit n xs = (if n = 0 then xs else take n xs)"

section \<open>Actor generation: \<open>create_users\<close>\<close>

subsection \<open>Injectivity of the decimal notation\<close>

lemma str_nat_nonempty: "str_nat n \<noteq> []"
  by (subst str_nat.simps) simp

lemma str_nat_inj: "str_nat n = str_nat m \<Longrightarrow> n = m"
proof (induction n arbitrary: m rule: str_nat.induct)
  case (1 n)
  show ?case
  proof (cases "n < 10")
    case True
    then have n: "str_nat n = [48 + n]" by (subst str_nat.simps) simp
    show ?thesis
    proof (cases "m < 10")
      case True
      then have "str_nat m = [48 + m]" by (subst str_nat.simps) simp
      with n "1.prems" show ?thesis by simp
    next
      case False
      then have "str_nat m = str_nat (m div 10) @ [48 + m mod 10]"
        by (subst str_nat.simps) simp
      with n "1.prems" str_nat_nonempty [of "m div 10"] show ?thesis by simp
    qed
  next
    case False
    then have n: "str_nat n = str_nat (n div 10) @ [48 + n mod 10]"
      by (subst str_nat.simps) simp
    show ?thesis
    proof (cases "m < 10")
      case True
      then have "str_nat m = [48 + m]" by (subst str_nat.simps) simp
      with n "1.prems" str_nat_nonempty [of "n div 10"] show ?thesis by simp
    next
      case m: False
      then have "str_nat m = str_nat (m div 10) @ [48 + m mod 10]"
        by (subst str_nat.simps) simp
      with n "1.prems" have a: "str_nat (n div 10) = str_nat (m div 10)"
        and b: "n mod 10 = m mod 10" by simp_all
      from "1.IH" [OF False a] have "n div 10 = m div 10" .
      with b show ?thesis by (metis div_mult_mod_eq)
    qed
  qed
qed

subsection \<open>Phone numbers\<close>

text \<open>The list \<open>prefixes\<close> of the source is \<open>'612'\<close> to \<open>'679'\<close>, all 68 of them in order.\<close>

definition prefixes :: "pystr list" where
  "prefixes = map str_nat [612..<680]"

fun random_digits :: "nat \<Rightarrow> rng \<Rightarrow> pystr \<times> rng" where
  "random_digits 0 g = ([], g)"
| "random_digits (Suc k) g =
     (let (d, g1) = randint 0 9 g;
          (ds, g2) = random_digits k g1
      in (str_int d @ ds, g2))"

definition generate_moroccan_phone :: "rng \<Rightarrow> pystr \<times> rng" where
  "generate_moroccan_phone g =
     (let (prefix, g1) = choice prefixes g;
          (number, g2) = random_digits 6 g1
      in (asc ''212'' @ prefix @ number, g2))"

text \<open>
  \<open>phone = generate_moroccan_phone(); while phone in used_phones: phone = ...\<close>. The loop
  draws until a fresh number comes; it need not stop, so the result is an option.
\<close>

partial_function (option) unique_phone :: "pystr list \<Rightarrow> rng \<Rightarrow> (pystr \<times> rng) option" where
  "unique_phone used_phones g =
     (case generate_moroccan_phone g of
        (phone, g') \<Rightarrow>
          if phone \<in> set used_phones then unique_phone used_phones g' else Some (phone, g'))"

subsection \<open>Email addresses\<close>

text \<open>
  \<open>while email in used_emails: email = f'{base_email}{i}{counter}@sou9na.ma'; counter += 1\<close>.
  The candidates for different counters differ, and \<open>used_emails\<close> is finite, so the
  loop stops.
\<close>

definition email_candidate :: "pystr \<Rightarrow> nat \<Rightarrow> nat \<Rightarrow> pystr" where
  "email_candidate base_email i counter =
     base_email @ str_nat i @ str_nat counter @ asc ''@sou9na.ma''"

lemma email_candidate_inj: "email_candidate b i c = email_candidate b i c' \<Longrightarrow> c = c'"
  by (simp add: email_candidate_def str_nat_inj)

lemma finite_used_candidates: "finite {c. P c \<and> email_candidate b i c \<in> set used}"
proof -
  have "inj (email_candidate b i)" by (rule injI) (rule email_candidate_inj)
  then have "finite (email_candidate b i -` set used)" by (simp add: finite_vimageI)
  moreover have "{c. P c \<and> email_candidate b i c \<in> set used} \<subseteq> email_candidate b i -` set used"
    by auto
  ultimately show ?thesis by (rule rev_finite_subset)
qed

function email_loop :: "pystr \<Rightarrow> nat \<Rightarrow> pystr list \<Rightarrow> pystr \<Rightarrow> nat \<Rightarrow> pystr" where
  "email_loop base_email i used_emails email counter =
     (if email \<in> set used_emails
      then email_loop base_email i used_emails (email_candidate base_email i counter)
             (counter + 1)
      else email)"
  by pat_completeness auto
termination
proof (relation "measure (\<lambda>(b, i, used, email, counter).
    2 * card {c. counter \<le> c \<and> email_candidate b i c \<in> set used}
    + (if email \<in> set used then 1 else 0))", goal_cases)
  case 1
  show ?case by simp
next
  case (2 b i used email counter)
  let ?S = "\<lambda>k. {c. k \<le> c \<and> email_candidate b i c \<in> set used}"
  show ?case
  proof (cases "email_candidate b i counter \<in> set used")
    case True
    then have "?S counter = insert counter (?S (counter + 1))" by (auto simp: le_Suc_eq)
    moreover have "counter \<notin> ?S (counter + 1)" by simp
    moreover have "finite (?S (counter + 1))" by (rule finite_used_candidates)
    ultimately have "card (?S counter) = Suc (card (?S (counter + 1)))"
      by (metis card_insert_disjoint)
    with 2 show ?thesis by simp
  next
    case False
    then have "?S (counter + 1) = ?S counter" by (auto simp: le_Suc_eq Suc_le_eq order_less_le)
    with 2 False show ?thesis by simp
  qed
qed

declare email_loop.simps [simp del]

subsection \<open>The users\<close>

text \<open>
  The loop for the producers and the loop for the buyers have the same body but for the
  role. Their state is the two sets of used values, the list \<open>users\<close> and the generator.
\<close>

type_synonym users_state = "pystr list \<times> pystr list \<times> user list \<times> rng"

definition new_user :: "env \<Rightarrow> pystr \<Rightarrow> role \<Rightarrow> nat \<Rightarrow> users_state \<Rightarrow> users_state option" where
  "new_user e password_hash r i st =
     (case st of (used_emails, used_phones, us, g) \<Rightarrow>
        let (first_name, g1) = choice MOROCCAN_FIRST_NAMES g;
            (last_name, g2) = choice MOROCCAN_LAST_NAMES g1;
            base_email = lower first_name @ asc ''.'' @ lower last_name;
            email = email_loop base_email i used_emails
                      (base_email @ str_nat i @ asc ''@sou9na.ma'') 0
        in case unique_phone used_phones g2 of
             None \<Rightarrow> None
           | Some (phone, g3) \<Rightarrow>
               let (created, g4) = date_time_between (datetime_now e) 730 g3
               in Some (email # used_emails, phone # used_phones,
                        us @ [\<lparr>u_email = email, u_phone = phone,
                                u_passwordHash = password_hash, u_role = r,
                                u_createdAt = created, u_updatedAt = datetime_now e\<rparr>],
                        g4))"

fun users_loop ::
  "env \<Rightarrow> pystr \<Rightarrow> role \<Rightarrow> nat \<Rightarrow> nat \<Rightarrow> users_state \<Rightarrow> users_state option" where
  "users_loop e password_hash r i 0 st = Some st"
| "users_loop e password_hash r i (Suc n) st =
     (case new_user e password_hash r i st of
        None \<Rightarrow> None
      | Some st' \<Rightarrow> users_loop e password_hash r (Suc i) n st')"

text \<open>
  The list \<open>users\<close> as \<open>create_users\<close> builds it before the insertion.
  \<open>int((count - 1) * 0.2)\<close> is the integer quotient by 5 (the float product of an integer
  below \<open>2\<^sup>5\<^sup>0\<close> with \<open>0.2\<close> never falls below the exact fifth).
\<close>

definition generate_users :: "env \<Rightarrow> nat \<Rightarrow> rng \<Rightarrow> (user list \<times> rng) option" where
  "generate_users e cnt g =
     (let password_hash = hash_password e (asc ''TestPass123!'');
          admin = \<lparr>u_email = asc ''admin@sou9na.ma'', u_phone = asc ''212612000000'',
                   u_passwordHash = password_hash, u_role = ADMIN,
                   u_createdAt = datetime_now e, u_updatedAt = datetime_now e\<rparr>;
          producer_count = (cnt - 1) div 5;
          buyer_count = cnt - 1 - producer_count
      in case users_loop e password_hash PRODUCER 0 producer_count ([], [], [admin], g) of
           None \<Rightarrow> None
         | Some st1 \<Rightarrow>
             (case users_loop e password_hash BUYER 0 buyer_count st1 of
                None \<Rightarrow> None
              | Some (used_emails, used_phones, us, g') \<Rightarrow> Some (us, g')))"

text \<open>
  The run of \<open>create_users\<close>: \<open>None\<close> when a retry loop never ends, an exception of
  the insertion otherwise, or the store with the new users and their ids.
\<close>

definition create_users ::
  "env \<Rightarrow> database \<Rightarrow> nat \<Rightarrow> rng \<Rightarrow> (error + database \<times> oid list \<times> rng) option" where
  "create_users e db cnt g =
     (case generate_users e cnt g of
        None \<Rightarrow> None
      | Some (us, g') \<Rightarrow>
          (case insert_batches 100 us (db_users db, next_id db) of
             Inl err \<Rightarrow> Some (Inl err)
           | Inr ((coll, n), inserted_users) \<Rightarrow>
               Some (Inr (db\<lparr>db_users := coll, next_id := n\<rparr>, inserted_users, g'))))"

section \<open>Organization generation: \<open>create_cooperatives\<close>\<close>

text \<open>
  \<open>generate_cooperative_name\<close> picks a product type, takes its Arabic and its English
  keyword, and picks one of six templates. The Arabic words of the templates are
  \<open>U+062A U+0639 U+0627 U+0648 U+0646 U+064A U+0629\<close> (cooperative),
  \<open>U+062C U+0645 U+0639 U+064A U+0629\<close> (association) and the prefix \<open>U+0644 U+0644\<close>.
\<close>

definition generate_cooperative_name :: "region \<Rightarrow> pystr \<Rightarrow> rng \<Rightarrow> pystr \<times> rng" where
  "generate_cooperative_name region city g =
     (let ((product_type, names), g1) = choice PRODUCT_CATEGORIES g;
          product_ar = names ! 0;
          product_en = names ! 1;
          templates =
            [[1578, 1593, 1575, 1608, 1606, 1610, 1577, 32] @ product_ar @ asc '' '' @ city,
             [1580, 1605, 1593, 1610, 1577, 32] @ product_ar @ asc '' '' @ r_name region,
             city @ asc '' '' @ product_en @ asc '' Cooperative'',
             asc ''Coop'' @ [233] @ asc ''rative '' @ product_en @ asc '' '' @ city,
             r_name region @ asc '' '' @ product_en @ asc '' Collective'',
             [1580, 1605, 1593, 1610, 1577, 32] @ city @ [32, 1604, 1604] @ product_ar]
      in choice templates g1)"

definition street_types :: "pystr list" where
  "street_types =
     [asc ''Avenue'', asc ''Rue'', asc ''Boulevard'', asc ''Route'', asc ''Place'',
      asc ''Quartier'']"

text \<open>
  The body of the loop after the producer is chosen: the cooperative number \<open>i\<close> of
  producer \<open>producer_id\<close>.
\<close>

definition new_cooperative :: "env \<Rightarrow> oid \<Rightarrow> nat \<Rightarrow> rng \<Rightarrow> cooperative \<times> rng" where
  "new_cooperative e producer_id i g =
     (let (region, g1) = choice MOROCCAN_REGIONS g;
          (city, g2) = choice (r_cities region) g1;
          (name, g3) = generate_cooperative_name region city g2;
          reg_prefix = remove_char 45 (remove_char 32 (upper (take 3 (r_name region))));
          (year, g4) = randint 2020 2024 g3;
          reg_number = asc ''REG-'' @ reg_prefix @ asc ''-'' @ str_int year @ asc ''-''
                         @ zfill 4 (str_nat (i + 1));
          (dlat, g5) = uniform (- 0.5) 0.5 g4;
          lat = r_lat region + dlat;
          (dlng, g6) = uniform (- 0.5) 0.5 g5;
          lng = r_lng region + dlng;
          (coin, g7) = random_float g6;
          street_name = (if 0.5 < coin then fr_street_name e (shd g7)
                         else en_street_name e (shd g7));
          (street_type, g8) = choice street_types (stl g7);
          address = street_type @ asc '' '' @ street_name @ asc '', '' @ city @ asc '', ''
                      @ r_name region @ asc '', Morocco'';
          (created, g9) = date_time_between (datetime_now e) 730 g8
      in (\<lparr>c_name = name, c_userId = Some producer_id,
           c_registrationNumber = reg_number, c_region = r_name region,
           c_latitude = py_round lat 6, c_longitude = py_round lng 6,
           c_address = address, c_createdAt = created, c_updatedAt = datetime_now e\<rparr>,
          g9))"

text \<open>
  \<open>for i in range(count)\<close>: the producers not used yet are listed, the loop breaks if there
  is none, and one of them is chosen and marked as used.
\<close>

type_synonym cooperatives_state = "oid list \<times> cooperative list \<times> rng"

fun cooperatives_loop ::
  "env \<Rightarrow> oid list \<Rightarrow> nat \<Rightarrow> nat \<Rightarrow> cooperatives_state \<Rightarrow> cooperatives_state" where
  "cooperatives_loop e producer_ids i 0 st = st"
| "cooperatives_loop e producer_ids i (Suc n) st =
     (case st of (used_producers, coops, g) \<Rightarrow>
        let available_producers = filter (\<lambda>pid. pid \<notin> set used_producers) producer_ids
        in if available_producers = [] then st
           else let (producer_id, g1) = choice available_producers g;
                    (cooperative, g2) = new_cooperative e producer_id i g1
                in cooperatives_loop e producer_ids (Suc i) n
                     (producer_id # used_producers, coops @ [cooperative], g2))"

text \<open>
  The first component of the result says whether the warning
  \<open>Only ... producers available\<close> was printed. The parameter \<open>user_ids\<close> is not used by
  the script: the producers are read from the store.
\<close>

definition generate_cooperatives ::
  "env \<Rightarrow> database \<Rightarrow> nat \<Rightarrow> rng \<Rightarrow> bool \<times> cooperative list \<times> rng" where
  "generate_cooperatives e db cnt g =
     (let producers = limit cnt (filter (\<lambda>(i, u). u_role u = PRODUCER) (db_users db));
          producer_ids = map fst producers;
          warned = (length producer_ids < cnt);
          cnt' = (if length producer_ids < cnt then length producer_ids else cnt);
          (used_producers, coops, g') = cooperatives_loop e producer_ids 0 cnt' ([], [], g)
      in (warned, coops, g'))"

text \<open>
  The list \<open>cooperatives\<close> goes to \<open>insert_many\<close> in one call and as it is, also when it
  is empty. The first component of the result is again whether the warning was printed,
  which happens before the insertion; the second one is the exception that ends the run,
  or the store with the new cooperatives and their ids.
\<close>

definition create_cooperatives ::
  "env \<Rightarrow> database \<Rightarrow> oid list \<Rightarrow> nat \<Rightarrow> rng
     \<Rightarrow> bool \<times> (error + database \<times> oid list \<times> rng)" where
  "create_cooperatives e db user_ids cnt g =
     (let (warned, coops, g') = generate_cooperatives e db cnt g
      in (warned,
          case insert_many coops (db_cooperatives db, next_id db) of
            Inl err \<Rightarrow> Inl err
          | Inr ((coll, n), coop_ids) \<Rightarrow>
              Inr (db\<lparr>db_cooperatives := coll, next_id := n\<rparr>, coop_ids, g')))"

section \<open>Catalog generation: \<open>create_products\<close>\<close>

subsection \<open>Product images\<close>

text \<open>
  \<open>get_product_images\<close> builds four candidate URLs from the category and from
  \<open>hash(f"{category}_{product_name}") % 1000\<close>, then returns a random sample of two to
  four of them.
\<close>

definition category_seeds :: "(pystr \<times> int list) list" where
  "category_seeds =
    [(asc ''Argan'', [100, 101, 102, 103]),
     (asc ''Olive'', [200, 201, 202, 203]),
     (asc ''Honey'', [300, 301, 302, 303]),
     (asc ''Dates'', [400, 401, 402, 403]),
     (asc ''Saffron'', [500, 501, 502, 503]),
     (asc ''Almonds'', [600, 601, 602, 603]),
     (asc ''Spices'', [700, 701, 702, 703]),
     (asc ''Couscous'', [800, 801, 802, 803]),
     (asc ''Tea'', [900, 901, 902, 903]),
     (asc ''Ceramics'', [1000, 1001, 1002, 1003]),
     (asc ''Wool'', [1100, 1101, 1102, 1103]),
     (asc ''Leather'', [1200, 1201, 1202, 1203])]"

definition picsum :: "int \<Rightarrow> pystr" where
  "picsum s = asc ''https://picsum.photos/seed/'' @ str_int s @ asc ''/800/800''"

text \<open>The local variable \<open>image_urls\<close>: the candidates, before the random selection.\<close>

definition image_urls :: "(pystr \<Rightarrow> int) \<Rightarrow> pystr \<Rightarrow> pystr \<Rightarrow> pystr list" where
  "image_urls h category product_name =
     (let seed_base = h (category @ asc ''_'' @ product_name) mod 1000
      in case map_of category_seeds category of
           Some seeds \<Rightarrow> map picsum (map (\<lambda>s. s + seed_base mod 10) seeds)
         | None \<Rightarrow>
             (let base_seed = seed_base + 5000
              in [picsum base_seed, picsum (base_seed + 1),
                  picsum (base_seed + 2), picsum (base_seed + 3)]))"

definition get_product_images ::
  "(pystr \<Rightarrow> int) \<Rightarrow> pystr \<Rightarrow> pystr \<Rightarrow> rng \<Rightarrow> (pystr list \<times> rng) option" where
  "get_product_images h category product_name g =
     (let urls = image_urls h category product_name;
          (num_images, g1) = randint 2 4 g
      in sample urls (nat (min num_images (int (length urls)))) g1)"

text \<open>\<open>image_urls[0] if image_urls else None\<close> in \<open>create_products\<close>.\<close>

definition primary_image :: "pystr list \<Rightarrow> pystr option" where
  "primary_image urls = (if urls \<noteq> [] then Some (urls ! 0) else None)"

subsection \<open>The category of a cooperative\<close>

text \<open>
  The category starts as a random key of \<open>PRODUCT_CATEGORIES\<close>. Then, for every word of
  the cooperative's name, the categories are tried in order: at the first category one of
  whose keywords contains the word (both in lower case), \<open>category\<close> is set and the
  inner loop is left by \<open>break\<close>. The outer loop goes on with the next word.
\<close>

fun category_loop :: "pystr \<Rightarrow> pystr \<Rightarrow> (pystr \<times> pystr list) list \<Rightarrow> pystr" where
  "category_loop category word [] = category"
| "category_loop category word ((cat, names) # rest) =
     (if list_ex (\<lambda>name. contains (lower word) (lower name)) names then cat
      else category_loop category word rest)"

fun word_loop :: "pystr \<Rightarrow> pystr list \<Rightarrow> pystr" where
  "word_loop category [] = category"
| "word_loop category (word # words) =
     word_loop (category_loop category word PRODUCT_CATEGORIES) words"

definition determine_category :: "pystr \<Rightarrow> rng \<Rightarrow> pystr \<times> rng" where
  "determine_category coop_name g =
     (let (category, g1) = choice (map fst PRODUCT_CATEGORIES) g
      in (word_loop category (py_split coop_name), g1))"

subsection \<open>Product names, prices and units\<close>

text \<open>The dictionary \<open>products\<close> of \<open>generate_product_name\<close>.\<close>

definition product_names :: "(pystr \<times> pystr list) list" where
  "product_names =
    [(asc ''Argan'',
      [[1586, 1610, 1578, 32, 1575, 1604, 1571, 1585, 1603, 1575, 1606, 32, 1575, 1604, 1593,
        1590, 1608, 1610, 32, 1575, 1604, 1605, 1605, 1578, 1575, 1586],
       asc ''Premium Organic Argan Oil'',
       [1586, 1610, 1578, 32, 1575, 1604, 1571, 1585, 1603, 1575, 1606, 32, 1604, 1604, 1576,
        1588, 1585, 1577],
       asc ''Cosmetic Argan Oil'',
       [1581, 1576, 1575, 1578, 32, 1575, 1604, 1571, 1585, 1603, 1575, 1606, 32, 1575, 1604,
        1582, 1575, 1605],
       asc ''Raw Argan Nuts'']),
     (asc ''Olive'',
      [[1586, 1610, 1578, 32, 1575, 1604, 1586, 1610, 1578, 1608, 1606, 32, 1575, 1604, 1576,
        1603, 1585, 32, 1575, 1604, 1605, 1605, 1578, 1575, 1586],
       asc ''Extra Virgin Olive Oil'',
       [1586, 1610, 1578, 1608, 1606, 32, 1571, 1582, 1590, 1585], asc ''Green Olives'',
       [1586, 1610, 1578, 1608, 1606, 32, 1571, 1587, 1608, 1583], asc ''Black Olives'']),
     (asc ''Honey'',
      [[1593, 1587, 1604, 32, 1575, 1604, 1571, 1585, 1603, 1575, 1606],
       asc ''Argan Honey'',
       [1593, 1587, 1604, 32, 1575, 1604, 1586, 1607, 1608, 1585, 32, 1575, 1604, 1576, 1585,
        1610, 1577],
       asc ''Wildflower Honey'', [1593, 1587, 1604, 32, 1575, 1604, 1580, 1576, 1604],
       asc ''Mountain Honey'']),
     (asc ''Dates'',
      [[1578, 1605, 1585, 32, 1575, 1604, 1605, 1580, 1607, 1608, 1604],
       asc ''Medjool Dates'', [1578, 1605, 1585, 32, 1575, 1604, 1593, 1580, 1608, 1577],
       asc ''Ajwa Dates'', [1605, 1593, 1580, 1608, 1606, 32, 1575, 1604, 1578, 1605, 1585],
       asc ''Date Paste'']),
     (asc ''Saffron'',
      [[1586, 1593, 1601, 1585, 1575, 1606, 32, 1582, 1610, 1608, 1591, 32, 1605, 1605, 1578,
        1575, 1586],
       asc ''Premium Saffron Threads'',
       [1586, 1593, 1601, 1585, 1575, 1606, 32, 1605, 1591, 1581, 1608, 1606],
       asc ''Ground Saffron'']),
     (asc ''Almonds'',
      [[1604, 1608, 1586, 32, 1593, 1590, 1608, 1610], asc ''Organic Almonds'',
       [1604, 1608, 1586, 32, 1605, 1581, 1605, 1589], asc ''Roasted Almonds'']),
     (asc ''Spices'',
      [[1585, 1571, 1587, 32, 1575, 1604, 1581, 1575, 1606, 1608, 1578],
       asc ''Ras el Hanout'', [1603, 1605, 1608, 1606], asc ''Cumin Seeds'',
       [1603, 1586, 1576, 1585, 1577], asc ''Coriander Seeds''])]"

definition generate_product_name :: "pystr \<Rightarrow> pystr \<Rightarrow> rng \<Rightarrow> pystr \<times> rng" where
  "generate_product_name category cooperative_name g =
     (case map_of product_names category of
        Some names \<Rightarrow> choice names g
      | None \<Rightarrow> (category @ asc '' Product'', g))"

text \<open>
  The Arabic keywords of the price rules: oil \<open>U+0632 U+064A U+062A\<close>, honey
  \<open>U+0639 U+0633 U+0644\<close>, dates \<open>U+062A U+0645 U+0631\<close>, saffron
  \<open>U+0632 U+0639 U+0641 U+0631 U+0627 U+0646\<close>, almonds \<open>U+0644 U+0648 U+0632\<close>, spices
  \<open>U+0628 U+0647 U+0627 U+0631 U+0627 U+062A\<close>; and the unit kilo,
  \<open>U+0643 U+064A U+0644 U+0648\<close>.
\<close>

definition kw_oil :: pystr where "kw_oil = [1586, 1610, 1578]"
definition kw_honey :: pystr where "kw_honey = [1593, 1587, 1604]"
definition kw_dates :: pystr where "kw_dates = [1578, 1605, 1585]"
definition kw_saffron :: pystr where "kw_saffron = [1586, 1593, 1601, 1585, 1575, 1606]"
definition kw_almonds :: pystr where "kw_almonds = [1604, 1608, 1586]"
definition kw_spices :: pystr where "kw_spices = [1576, 1607, 1575, 1585, 1575, 1578]"
definition unit_kilo :: pystr where "unit_kilo = [1603, 1610, 1604, 1608]"

text \<open>The chain of \<open>if\<close> and \<open>elif\<close> on the product name that sets \<open>price\<close> and \<open>unit\<close>.\<close>

definition price_and_unit :: "pystr \<Rightarrow> rng \<Rightarrow> (rat \<times> pystr) \<times> rng" where
  "price_and_unit product_name g =
     (if contains (asc ''Oil'') product_name \<or> contains kw_oil product_name then
        let (x, g1) = uniform 150 500 g
        in ((py_round x 2,
             if contains (asc ''Oil'') product_name then asc ''liter'' else unit_kilo), g1)
      else if contains (asc ''Honey'') product_name \<or> contains kw_honey product_name then
        let (x, g1) = uniform 80 300 g in ((py_round x 2, asc ''kg''), g1)
      else if contains (asc ''Dates'') product_name \<or> contains kw_dates product_name then
        let (x, g1) = uniform 40 120 g in ((py_round x 2, asc ''kg''), g1)
      else if contains (asc ''Saffron'') product_name \<or> contains kw_saffron product_name then
        let (x, g1) = uniform 800 2000 g in ((py_round x 2, asc ''100g''), g1)
      else if contains (asc ''Almonds'') product_name \<or> contains kw_almonds product_name then
        let (x, g1) = uniform 60 150 g in ((py_round x 2, asc ''kg''), g1)
      else if contains (asc ''Spices'') product_name \<or> contains kw_spices product_name then
        let (x, g1) = uniform 30 150 g in ((py_round x 2, asc ''100g''), g1)
      else
        let (x, g1) = uniform 50 300 g;
            (u, g2) = choice [asc ''kg'', asc ''piece'', asc ''set'', asc ''100g''] g1
        in ((py_round x 2, u), g2))"

subsection \<open>The products\<close>

text \<open>
  The body of the inner loop: one product of the cooperative \<open>coop\<close> with id \<open>coop_id\<close>.
  A \<open>ValueError\<close> of \<open>random.sample\<close> would end the run (\<open>None\<close>).
\<close>

definition new_product ::
  "env \<Rightarrow> oid \<Rightarrow> cooperative \<Rightarrow> pystr \<Rightarrow> rng \<Rightarrow> (product \<times> rng) option" where
  "new_product e coop_id coop category g =
     (let (product_name, g1) = generate_product_name category (c_name coop) g;
          ((price, u), g2) = price_and_unit product_name g1;
          (stock, g3) = randint 10 500 g2;
          description = asc ''Premium quality '' @ product_name @ asc '' from ''
                          @ c_region coop
                          @ asc ''. Sustainably sourced and certified organic.''
      in case get_product_images (py_hash e) category product_name g3 of
           None \<Rightarrow> None
         | Some (urls, g4) \<Rightarrow>
             let (created, g5) = date_time_between (datetime_now e) 365 g4
             in Some (\<lparr>p_cooperativeId = coop_id, p_name = product_name,
                       p_description = description, p_price = price, p_unit = u,
                       p_stockQuantity = stock, p_imageUrl = primary_image urls,
                       p_imageUrls = urls, p_deletedAt = None,
                       p_createdAt = created, p_updatedAt = datetime_now e\<rparr>,
                      g5))"

fun products_loop ::
  "env \<Rightarrow> oid \<Rightarrow> cooperative \<Rightarrow> pystr \<Rightarrow> nat \<Rightarrow> product list \<times> rng
     \<Rightarrow> (product list \<times> rng) option" where
  "products_loop e coop_id coop category 0 st = Some st"
| "products_loop e coop_id coop category (Suc n) st =
     (case st of (all_products, g) \<Rightarrow>
        case new_product e coop_id coop category g of
          None \<Rightarrow> None
        | Some (p, g') \<Rightarrow> products_loop e coop_id coop category n (all_products @ [p], g'))"

text \<open>The outer loop: a cooperative id that the store does not know is skipped.\<close>

fun coops_loop ::
  "env \<Rightarrow> database \<Rightarrow> nat \<Rightarrow> oid list \<Rightarrow> product list \<times> rng \<Rightarrow> (product list \<times> rng) option" where
  "coops_loop e db products_per_coop [] st = Some st"
| "coops_loop e db products_per_coop (coop_id # rest) st =
     (case st of (all_products, g) \<Rightarrow>
        case find_one (\<lambda>(i, c). i = coop_id) (db_cooperatives db) of
          None \<Rightarrow> coops_loop e db products_per_coop rest st
        | Some (i, coop) \<Rightarrow>
            let (category, g1) = determine_category (c_name coop) g
            in case products_loop e coop_id coop category products_per_coop
                      (all_products, g1) of
                 None \<Rightarrow> None
               | Some st' \<Rightarrow> coops_loop e db products_per_coop rest st')"

definition generate_products ::
  "env \<Rightarrow> database \<Rightarrow> oid list \<Rightarrow> nat \<Rightarrow> rng \<Rightarrow> (product list \<times> rng) option" where
  "generate_products e db cooperative_ids products_per_coop g =
     coops_loop e db products_per_coop cooperative_ids ([], g)"

definition create_products ::
  "env \<Rightarrow> database \<Rightarrow> oid list \<Rightarrow> nat \<Rightarrow> rng
     \<Rightarrow> (error + database \<times> oid list \<times> rng) option" where
  "create_products e db cooperative_ids products_per_coop g =
     (case generate_products e db cooperative_ids products_per_coop g of
        None \<Rightarrow> None
      | Some (all_products, g') \<Rightarrow>
          (case insert_batches 200 all_products (db_products db, next_id db) of
             Inl err \<Rightarrow> Some (Inl err)
           | Inr ((coll, n), inserted_products) \<Rightarrow>
               Some (Inr (db\<lparr>db_products := coll, next_id := n\<rparr>, inserted_products, g'))))"

section \<open>Ledger generation: \<open>create_transactions\<close>\<close>

subsection \<open>The statuses\<close>

text \<open>
  \<open>status_weights\<close> is iterated in the order of its keys. \<open>int(transaction_count * weight)\<close>
  is taken as the floor of the exact product; the list is then filled with \<open>SETTLED\<close> up
  to \<open>transaction_count\<close> and shuffled.
\<close>

definition status_weights :: "(status \<times> rat) list" where
  "status_weights =
     [(SETTLED, 0.60), (DELIVERED, 0.15), (SHIPPED, 0.10), (ESCROWED, 0.10), (FAILED, 0.05)]"

definition initial_statuses :: "nat \<Rightarrow> status list" where
  "initial_statuses transaction_count =
     (let statuses =
            concat (map (\<lambda>(s, weight). replicate (nat \<lfloor>of_nat transaction_count * weight\<rfloor>) s)
                      status_weights)
      in statuses @ replicate (transaction_count - length statuses) SETTLED)"

subsection \<open>The transactions\<close>

text \<open>
  The dictionary \<open>cooperatives\<close> from the id of a cooperative to its \<open>userId\<close>; a later
  document with the same id would overwrite an earlier one. \<open>cooperatives.get(coop_id)\<close>
  is \<open>None\<close> for an unknown id and for a \<open>userId\<close> that is \<open>None\<close>, and both fail the
  test \<open>if not seller_id\<close>. The keys are the printed ids in the script; printing an id is
  injective, so the ids themselves are the keys here.
\<close>

definition cooperatives_get :: "cooperative collection \<Rightarrow> oid \<Rightarrow> oid option" where
  "cooperatives_get coll coop_id =
     (case map_of (rev (map (\<lambda>(i, c). (i, c_userId c)) coll)) coop_id of
        None \<Rightarrow> None
      | Some owner \<Rightarrow> owner)"

text \<open>
  The body of the loop once the seller is known, for the status \<open>statuses[i]\<close>.
\<close>

definition new_transaction ::
  "env \<Rightarrow> status \<Rightarrow> oid \<times> user \<Rightarrow> oid \<times> product \<Rightarrow> oid \<Rightarrow> rng \<Rightarrow> transaction \<times> rng" where
  "new_transaction e st buyer product seller_id g =
     (let (q, g1) = randint 1 5 g;
          (quantity, g2) = (if p_price (snd product) < 50 then randint 2 10 g1 else (q, g1));
          amount = py_round (p_price (snd product) * of_int quantity) 2;
          fee = py_round (amount * 0.05) 2;
          total_amount = py_round (amount + fee) 2;
          (created_at, g3) = date_time_between (datetime_now e) 730 g2;
          (coin, g4) = random_float g3;
          (escrow_id, g5) =
            (if 0.1 < coin
             then let (n, g') = randint 100000 999999 g4 in (Some (asc ''ESC'' @ str_int n), g')
             else (None, g4));
          qr_signature =
            (if st = DELIVERED \<or> st = SETTLED
             then Some (take 32 (sha256_hexdigest e
                    (str_oid e (fst buyer) @ str_oid e (fst product)
                       @ str_datetime e created_at)))
             else None);
          (settled_at, g6) =
            (if st = SETTLED
             then let (d, g') = randint 1 7 g5 in (Some (created_at + timedelta_days d), g')
             else (None, g5));
          (updated_at, g7) =
            (case settled_at of
               Some s \<Rightarrow> (s, g6)
             | None \<Rightarrow> let (d, g') = randint 0 3 g6 in (created_at + timedelta_days d, g'))
      in (\<lparr>t_buyerId = fst buyer, t_sellerId = seller_id, t_productId = fst product,
           t_quantity = quantity, t_amount = amount, t_fee = fee,
           t_totalAmount = total_amount, t_status = st,
           t_escrowTransactionId = escrow_id, t_qrSignature = qr_signature,
           t_settledAt = settled_at, t_createdAt = created_at, t_updatedAt = updated_at\<rparr>,
          g7))"

text \<open>
  \<open>for i in range(transaction_count)\<close>: a buyer and a product are drawn; without a seller
  the draw is dropped by \<open>continue\<close>.
\<close>

fun transactions_loop ::
  "env \<Rightarrow> user collection \<Rightarrow> product collection \<Rightarrow> cooperative collection \<Rightarrow> status list
     \<Rightarrow> nat \<Rightarrow> nat \<Rightarrow> transaction list \<times> rng \<Rightarrow> transaction list \<times> rng" where
  "transactions_loop e buyers prods coops statuses i 0 st = st"
| "transactions_loop e buyers prods coops statuses i (Suc n) st =
     (case st of (txs, g) \<Rightarrow>
        let (buyer, g1) = choice buyers g;
            (product, g2) = choice prods g1
        in case cooperatives_get coops (p_cooperativeId (snd product)) of
             None \<Rightarrow> transactions_loop e buyers prods coops statuses (Suc i) n (txs, g2)
           | Some seller_id \<Rightarrow>
               let (tx, g3) = new_transaction e (statuses ! i) buyer product seller_id g2
               in transactions_loop e buyers prods coops statuses (Suc i) n
                    (txs @ [tx], g3))"

text \<open>
  The list \<open>transactions\<close> as the script holds it in memory before the insertion; \<open>None\<close>
  is the early return when there is no buyer or no product.
\<close>

definition generate_transactions ::
  "env \<Rightarrow> database \<Rightarrow> nat \<Rightarrow> rng \<Rightarrow> (transaction list \<times> rng) option" where
  "generate_transactions e db transaction_count g =
     (let buyers = limit 500 (filter (\<lambda>(i, u). u_role u = BUYER) (db_users db));
          prods = db_products db
      in if buyers = [] \<or> prods = [] then None
         else
           let (statuses, g1) = shuffle (initial_statuses transaction_count) g
           in Some (transactions_loop e buyers prods (db_cooperatives db) statuses
                      0 transaction_count ([], g1)))"

subsection \<open>The transaction logs\<close>

definition log_sequence :: "status \<Rightarrow> status \<times> pystr" where
  "log_sequence s =
     (case s of
        INITIATED \<Rightarrow> (INITIATED, asc ''Transaction created and initiated'')
      | ESCROWED \<Rightarrow> (ESCROWED, asc ''Funds escrowed successfully'')
      | SHIPPED \<Rightarrow> (SHIPPED, asc ''Product shipped by seller'')
      | DELIVERED \<Rightarrow> (DELIVERED, asc ''Product marked as delivered'')
      | SETTLED \<Rightarrow> (SETTLED, asc ''Payment released to seller'')
      | FAILED \<Rightarrow> (FAILED, asc ''Transaction failed''))"

definition status_order :: "status list" where
  "status_order = [INITIATED, ESCROWED, SHIPPED, DELIVERED, SETTLED]"

text \<open>\<open>xs.index(x)\<close> where \<open>x in xs\<close> has been tested.\<close>

fun index_of :: "'a \<Rightarrow> 'a list \<Rightarrow> nat" where
  "index_of x [] = 0"
| "index_of x (y # ys) = (if x = y then 0 else Suc (index_of x ys))"

definition logs_to_create :: "status \<Rightarrow> (status \<times> pystr) list" where
  "logs_to_create final_status =
     (if final_status = FAILED then [log_sequence INITIATED, log_sequence FAILED]
      else
        let status_index =
              (if final_status \<in> set status_order then index_of final_status status_order
               else 0)
        in map log_sequence (take (status_index + 1) status_order))"

text \<open>
  The log entries of the transaction \<open>tx\<close>, attached to the stored document with id
  \<open>tx_id\<close>: one every two hours from the creation of the transaction. An empty
  \<open>apiResponse\<close> is \<open>None\<close>.
\<close>

definition log_entries :: "oid \<Rightarrow> transaction \<Rightarrow> transaction_log list" where
  "log_entries tx_id tx =
     map (\<lambda>(idx, (s, message)).
            \<lparr>l_transactionId = tx_id, l_status = s, l_message = message,
             l_apiResponse =
               (if s = ESCROWED \<or> s = DELIVERED \<or> s = SETTLED
                then Some (t_escrowTransactionId tx, t_qrSignature tx) else None),
             l_createdAt = t_createdAt tx + timedelta_hours (int idx * 2)\<rparr>)
         (enumerate 0 (logs_to_create (t_status tx)))"

text \<open>
  One round of \<open>for tx in transactions\<close>: the stored transaction is looked up by buyer,
  product and creation time; if there is none, the round is left by \<open>continue\<close>.
\<close>

definition same_triple :: "transaction \<Rightarrow> oid \<times> transaction \<Rightarrow> bool" where
  "same_triple tx doc \<longleftrightarrow>
     t_buyerId (snd doc) = t_buyerId tx \<and> t_productId (snd doc) = t_productId tx
     \<and> t_createdAt (snd doc) = t_createdAt tx"

definition tx_logs :: "transaction collection \<Rightarrow> transaction \<Rightarrow> transaction_log list" where
  "tx_logs stored tx =
     (case find_one (same_triple tx) stored of
        None \<Rightarrow> []
      | Some tx_doc \<Rightarrow> log_entries (fst tx_doc) tx)"

text \<open>
  The run of \<open>create_transactions\<close>: the transactions are inserted in batches, the log
  entries of all of them are collected, looking each transaction up in the store as it is
  after the insertion, and inserted in batches under \<open>if transaction_logs\<close>. The result
  is an exception of an insertion, or the store and the ids of the new transactions (the
  store as it was and no id after the early return).
\<close>

definition create_transactions ::
  "env \<Rightarrow> database \<Rightarrow> nat \<Rightarrow> rng \<Rightarrow> error + database \<times> oid list \<times> rng" where
  "create_transactions e db transaction_count g =
     (case generate_transactions e db transaction_count g of
        None \<Rightarrow> Inr (db, [], g)
      | Some (txs, g') \<Rightarrow>
          (case insert_batches 200 txs (db_transactions db, next_id db) of
             Inl err \<Rightarrow> Inl err
           | Inr ((stored, n1), inserted_transactions) \<Rightarrow>
               let transaction_logs = concat (map (tx_logs stored) txs)
               in if transaction_logs = []
                  then Inr (db\<lparr>db_transactions := stored, next_id := n1\<rparr>,
                            inserted_transactions, g')
                  else
                    (case insert_batches 500 transaction_logs (db_transactionlogs db, n1) of
                       Inl err \<Rightarrow> Inl err
                     | Inr ((logs, n2), log_ids) \<Rightarrow>
                         Inr (db\<lparr>db_transactions := stored, db_transactionlogs := logs,
                                next_id := n2\<rparr>,
                              inserted_transactions, g'))))"

section \<open>Vocabulary of the properties and concrete data\<close>

text \<open>
  The definitions below are not part of the script: they name what the properties talk
  about (the first and the last matching word of a name, the price tables, an invariant)
  and fix a small store, an environment and the documents that concrete runs produce.
\<close>

subsection \<open>A concrete store\<close>

text \<open>A small store and environment for concrete runs.\<close>

definition zero_hash :: "pystr \<Rightarrow> int" where
  "zero_hash s = 0"

definition demo_text :: "nat \<Rightarrow> pystr" where
  "demo_text d = asc ''Hassan II''"

definition demo_digest :: "pystr \<Rightarrow> pystr" where
  "demo_digest s = asc ''9f86d081884c7d659a2feaa0c55ad015a3bf4f1b2b0b822cd15d6c15b0f00a08''"

definition demo_env :: env where
  "demo_env =
     \<lparr>py_hash = zero_hash, hash_password = demo_digest, datetime_now = 1700000000,
      fr_street_name = demo_text, en_street_name = demo_text,
      sha256_hexdigest = demo_digest, str_oid = str_nat, str_datetime = str_int\<rparr>"

definition demo_admin :: user where
  "demo_admin =
     \<lparr>u_email = asc ''admin@sou9na.ma'', u_phone = asc ''212612000000'',
      u_passwordHash = asc ''x'', u_role = ADMIN,
      u_createdAt = 1700000000, u_updatedAt = 1700000000\<rparr>"

definition demo_producer :: user where
  "demo_producer =
     \<lparr>u_email = asc ''ahmed.alaoui0@sou9na.ma'', u_phone = asc ''212612000001'',
      u_passwordHash = asc ''x'', u_role = PRODUCER,
      u_createdAt = 1690000000, u_updatedAt = 1700000000\<rparr>"

definition demo_buyer :: user where
  "demo_buyer =
     \<lparr>u_email = asc ''sara.tazi0@sou9na.ma'', u_phone = asc ''212612000002'',
      u_passwordHash = asc ''x'', u_role = BUYER,
      u_createdAt = 1690000000, u_updatedAt = 1700000000\<rparr>"

definition demo_users :: "user collection" where
  "demo_users = [(10, demo_admin), (11, demo_producer), (12, demo_buyer)]"

definition demo_cooperative :: cooperative where
  "demo_cooperative =
     \<lparr>c_name = asc ''Agadir Spices Cooperative'', c_userId = Some 11,
      c_registrationNumber = asc ''REG-SOU-2021-0001'', c_region = asc ''Souss-Massa'',
      c_latitude = 30.4278, c_longitude = - 9.5981,
      c_address = asc ''Rue Hassan II, Agadir, Souss-Massa, Morocco'',
      c_createdAt = 1690000000, c_updatedAt = 1700000000\<rparr>"

definition demo_product :: product where
  "demo_product =
     \<lparr>p_cooperativeId = 13, p_name = asc ''Cumin Seeds'',
      p_description = asc ''Premium quality '' @ asc ''Cumin Seeds'' @ asc '' from ''
         @ asc ''Souss-Massa'' @ asc ''. Sustainably sourced and certified organic.'',
      p_price = 175, p_unit = asc ''piece'', p_stockQuantity = 10,
      p_imageUrl = Some (picsum 700), p_imageUrls = [picsum 700, picsum 703],
      p_deletedAt = None, p_createdAt = 1668464000, p_updatedAt = 1700000000\<rparr>"

definition demo_db :: database where
  "demo_db =
     \<lparr>db_users = demo_users, db_cooperatives = [(13, demo_cooperative)],
      db_products = [(14, demo_product)], db_transactions = [], db_transactionlogs = [],
      next_id = 15\<rparr>"

subsection \<open>Matching words and categories\<close>

text \<open>
  The words of the claim and of its amendment, as functions: whether a word matches some
  category, the first word of a list that does, the last word that does, and the category
  a matching word stands for (the first one in the order of the table).
\<close>

definition word_matches :: "pystr \<Rightarrow> pystr \<times> pystr list \<Rightarrow> bool" where
  "word_matches word entry = list_ex (\<lambda>name. contains (lower word) (lower name)) (snd entry)"

definition matches_any :: "pystr \<Rightarrow> bool" where
  "matches_any word = list_ex (word_matches word) PRODUCT_CATEGORIES"

definition first_matching_word :: "pystr list \<Rightarrow> pystr option" where
  "first_matching_word words = List.find matches_any words"

definition last_matching_word :: "pystr list \<Rightarrow> pystr option" where
  "last_matching_word words = List.find matches_any (rev words)"

definition category_of_word :: "pystr \<Rightarrow> pystr option" where
  "category_of_word word = map_option fst (List.find (word_matches word) PRODUCT_CATEGORIES)"

subsection \<open>Price tables\<close>

text \<open>
  The table of the claim, by category (the oils are the categories \<open>Argan\<close> and
  \<open>Olive\<close>), and the table that the script applies, by keywords of the product name, the
  first rule that applies winning. A row is the lowest price, the highest price and the
  units that may come with it.
\<close>

definition category_price_rule :: "pystr \<Rightarrow> rat \<times> rat \<times> pystr list" where
  "category_price_rule category =
     (if category = asc ''Argan'' \<or> category = asc ''Olive'' then (150, 500, [asc ''liter''])
      else if category = asc ''Honey'' then (80, 300, [asc ''kg''])
      else if category = asc ''Dates'' then (40, 120, [asc ''kg''])
      else if category = asc ''Saffron'' then (800, 2000, [asc ''100g''])
      else if category = asc ''Almonds'' then (60, 150, [asc ''kg''])
      else if category = asc ''Spices'' then (30, 150, [asc ''100g''])
      else (50, 300, [asc ''kg'', asc ''piece'', asc ''set'', asc ''100g'']))"

definition name_price_rule :: "pystr \<Rightarrow> rat \<times> rat \<times> pystr list" where
  "name_price_rule product_name =
     (if contains (asc ''Oil'') product_name then (150, 500, [asc ''liter''])
      else if contains kw_oil product_name then (150, 500, [unit_kilo])
      else if contains (asc ''Honey'') product_name \<or> contains kw_honey product_name
        then (80, 300, [asc ''kg''])
      else if contains (asc ''Dates'') product_name \<or> contains kw_dates product_name
        then (40, 120, [asc ''kg''])
      else if contains (asc ''Saffron'') product_name \<or> contains kw_saffron product_name
        then (800, 2000, [asc ''100g''])
      else if contains (asc ''Almonds'') product_name \<or> contains kw_almonds product_name
        then (60, 150, [asc ''kg''])
      else if contains (asc ''Spices'') product_name \<or> contains kw_spices product_name
        then (30, 150, [asc ''100g''])
      else (50, 300, [asc ''kg'', asc ''piece'', asc ''set'', asc ''100g'']))"

definition obeys :: "rat \<times> rat \<times> pystr list \<Rightarrow> rat \<Rightarrow> pystr \<Rightarrow> bool" where
  "obeys row price u \<longleftrightarrow> fst row \<le> price \<and> price \<le> fst (snd row) \<and> u \<in> set (snd (snd row))"

subsection \<open>Concrete transactions\<close>

definition demo_transaction :: transaction where
  "demo_transaction =
     \<lparr>t_buyerId = 12, t_sellerId = 11, t_productId = 14, t_quantity = 1,
      t_amount = 175, t_fee = 8.75, t_totalAmount = 183.75, t_status = SETTLED,
      t_escrowTransactionId = None,
      t_qrSignature = Some (asc ''9f86d081884c7d659a2feaa0c55ad015''),
      t_settledAt = Some 1637014400, t_createdAt = 1636928000, t_updatedAt = 1637014400\<rparr>"

text \<open>
  Two stores that hold a transaction before the run: one with the buyer, the product and
  the creation time that the run is going to draw, one with another creation time.
\<close>

definition demo_clash :: transaction where
  "demo_clash =
     demo_transaction\<lparr>t_status := FAILED, t_qrSignature := None, t_settledAt := None,
       t_updatedAt := 1636928000\<rparr>"

definition demo_other :: transaction where
  "demo_other = demo_clash\<lparr>t_createdAt := 1600000000\<rparr>"

definition demo_db_with :: "transaction \<Rightarrow> database" where
  "demo_db_with old = demo_db\<lparr>db_transactions := [(9, old)]\<rparr>"

subsection \<open>Concrete cooperatives and their stores\<close>

text \<open>
  The two cooperatives that the all-zero tape generates in a store with two producers,
  the second producer and that store.
\<close>

definition demo_new_cooperative :: cooperative where
  "demo_new_cooperative =
     \<lparr>c_name = [1578, 1593, 1575, 1608, 1606, 1610, 1577, 32, 1586, 1610, 1578, 32, 1575,
                 1604, 1571, 1585, 1603, 1575, 1606] @ asc '' Casablanca'',
      c_userId = Some 11,
      c_registrationNumber = asc ''REG-CAS-2020-0001'', c_region = asc ''Casablanca-Settat'',
      c_latitude = 33.0731, c_longitude = - 8.0898,
      c_address = asc ''Avenue Hassan II, Casablanca, Casablanca-Settat, Morocco'',
      c_createdAt = 1636928000, c_updatedAt = 1700000000\<rparr>"

definition demo_second_producer :: user where
  "demo_second_producer =
     \<lparr>u_email = asc ''fatima.bennani0@sou9na.ma'', u_phone = asc ''212612000003'',
      u_passwordHash = asc ''x'', u_role = PRODUCER,
      u_createdAt = 1690000000, u_updatedAt = 1700000000\<rparr>"

definition demo_second_cooperative :: cooperative where
  "demo_second_cooperative =
     demo_new_cooperative\<lparr>c_userId := Some 16,
       c_registrationNumber := asc ''REG-CAS-2020-0002''\<rparr>"

definition demo_db_two_producers :: database where
  "demo_db_two_producers =
     \<lparr>db_users = [(10, demo_admin), (11, demo_producer), (12, demo_buyer),
                  (16, demo_second_producer)],
      db_cooperatives = [], db_products = [], db_transactions = [], db_transactionlogs = [],
      next_id = 17\<rparr>"

text \<open>A store with no producer: the admin and one buyer.\<close>

definition demo_db_no_producer :: database where
  "demo_db_no_producer =
     \<lparr>db_users = [(10, demo_admin), (12, demo_buyer)],
      db_cooperatives = [], db_products = [], db_transactions = [], db_transactionlogs = [],
      next_id = 13\<rparr>"

subsection \<open>Concrete users and the invariant of the user loops\<close>

definition users_inv :: "role set \<Rightarrow> users_state \<Rightarrow> bool" where
  "users_inv roles st \<longleftrightarrow>
     (case st of (ue, up, us, g) \<Rightarrow>
        us \<noteq> [] \<and> map u_email (tl us) = rev ue \<and> map u_phone (tl us) = rev up
        \<and> distinct ue \<and> distinct up \<and> asc ''admin@sou9na.ma'' \<notin> set ue
        \<and> u_role ` set (tl us) \<subseteq> roles)"

definition demo_new_buyer :: user where
  "demo_new_buyer =
     \<lparr>u_email = asc ''ahmed.alaoui0@sou9na.ma'', u_phone = asc ''212612000000'',
      u_passwordHash = hash_password demo_env (asc ''TestPass123!''), u_role = BUYER,
      u_createdAt = 1636928000, u_updatedAt = 1700000000\<rparr>"

definition demo_new_admin :: user where
  "demo_new_admin =
     \<lparr>u_email = asc ''admin@sou9na.ma'', u_phone = asc ''212612000000'',
      u_passwordHash = hash_password demo_env (asc ''TestPass123!''), u_role = ADMIN,
      u_createdAt = 1700000000, u_updatedAt = 1700000000\<rparr>"

section \<open>Properties of the Python primitives\<close>

lemma str_nat_digits: "\<forall>c \<in> set (str_nat n). 48 \<le> c \<and> c < 58"
proof (induction n rule: str_nat.induct)
  case (1 n)
  show ?case
  proof (cases "n < 10")
    case True
    then show ?thesis by (subst str_nat.simps) simp
  next
    case False
    with "1.IH" have "\<forall>c \<in> set (str_nat (n div 10)). 48 \<le> c \<and> c < 58" by simp
    with False show ?thesis by (subst str_nat.simps) auto
  qed
qed

lemma str_int_inj: "str_int i = str_int j \<Longrightarrow> i = j"
proof -
  assume eq: "str_int i = str_int j"
  have neg: "45 # str_nat a \<noteq> str_nat b" for a b
  proof
    assume "45 # str_nat a = str_nat b"
    then have "45 \<in> set (str_nat b)" by (metis list.set_intros(1))
    with str_nat_digits [of b] show False by auto
  qed
  show ?thesis
  proof (cases "i < 0")
    case True
    show ?thesis
    proof (cases "j < 0")
      case j: True
      with True eq have "str_nat (nat (- i)) = str_nat (nat (- j))" by (simp add: str_int_def)
      then have "nat (- i) = nat (- j)" by (rule str_nat_inj)
      with True j show ?thesis by simp
    next
      case False
      with True eq neg [of "nat (- i)" "nat j"] show ?thesis by (simp add: str_int_def)
    qed
  next
    case False
    show ?thesis
    proof (cases "j < 0")
      case True
      with False eq neg [of "nat (- j)" "nat i"] show ?thesis by (simp add: str_int_def)
    next
      case j: False
      with False eq have "str_nat (nat i) = str_nat (nat j)" by (simp add: str_int_def)
      then have "nat i = nat j" by (rule str_nat_inj)
      with False j show ?thesis by simp
    qed
  qed
qed

lemma picsum_inj: "picsum s = picsum t \<Longrightarrow> s = t"
  by (simp add: picsum_def str_int_inj)

lemma swap_remove:
  assumes "distinct xs" "j < length xs"
  shows "distinct (butlast (xs[j := last xs])) \<and> set (butlast (xs[j := last xs])) = set xs - {xs ! j}
     \<and> length (butlast (xs[j := last xs])) = length xs - 1"
proof (cases "j = length xs - 1")
  case True
  with assms have "xs \<noteq> []" by auto
  with True have j: "xs ! j = last xs" by (simp add: last_conv_nth)
  then have "xs[j := last xs] = xs" by (metis list_update_id)
  moreover have "set (butlast xs) = set xs - {last xs}"
  proof -
    from \<open>xs \<noteq> []\<close> have e: "xs = butlast xs @ [last xs]" by simp
    with assms(1) have "last xs \<notin> set (butlast xs)"
      by (metis distinct_append disjoint_insert(1) list.simps(15))
    moreover from e have "set xs = insert (last xs) (set (butlast xs))"
      by (metis Un_insert_right list.simps(15) set_append sup_bot.right_neutral empty_set)
    ultimately show ?thesis by auto
  qed
  ultimately show ?thesis using assms j by (simp add: distinct_butlast)
next
  case False
  with assms have ne: "xs \<noteq> []" and jl: "j < length (butlast xs)" by auto
  define ys where "ys = butlast xs"
  define l where "l = last xs"
  from ne have xs: "xs = ys @ [l]" by (simp add: ys_def l_def)
  from assms(1) xs have dy: "distinct ys" and ln: "l \<notin> set ys" by auto
  from jl have jy: "j < length ys" by (simp add: ys_def)
  have upd: "butlast (xs[j := last xs]) = ys[j := l]"
    using jy xs by (simp add: list_update_append l_def [symmetric])
  have nth: "xs ! j = ys ! j" using jy xs by (simp add: nth_append)
  have "set (ys[j := l]) = insert l (set ys - {ys ! j})"
    using dy jy by (rule set_update_distinct)
  moreover have "set xs = insert l (set ys)" using xs by auto
  moreover have "ys ! j \<noteq> l" using ln jy by (metis nth_mem)
  ultimately have s: "set (ys[j := l]) = set xs - {xs ! j}" using nth ln by auto
  have d: "distinct (ys[j := l])" using dy ln by (simp add: distinct_list_update)
  from upd s d xs show ?thesis by simp
qed

lemma sample_loop_props:
  "k \<le> length pool \<Longrightarrow> distinct pool \<Longrightarrow> sample_loop pool k g = (xs, g') \<Longrightarrow>
     length xs = k \<and> set xs \<subseteq> set pool \<and> distinct xs"
proof (induction k arbitrary: pool g xs g')
  case 0
  then show ?case by simp
next
  case (Suc k)
  define j where "j = shd g mod length pool"
  define pool' where "pool' = butlast (pool[j := last pool])"
  from Suc.prems(1) have "pool \<noteq> []" by auto
  then have j: "j < length pool" by (simp add: j_def)
  from swap_remove [OF Suc.prems(2) j]
  have d': "distinct pool'" and s': "set pool' = set pool - {pool ! j}"
    and l': "length pool' = length pool - 1" by (simp_all add: pool'_def)
  obtain ys h where rec: "sample_loop pool' k (stl g) = (ys, h)" by (cases "sample_loop pool' k (stl g)")
  from Suc.prems(1) l' have "k \<le> length pool'" by simp
  from Suc.IH [OF this d' rec]
  have ih: "length ys = k" "set ys \<subseteq> set pool'" "distinct ys" by simp_all
  from Suc.prems(3) rec have xs: "xs = pool ! j # ys"
    by (simp add: j_def pool'_def Let_def)
  from ih s' j xs show ?case by auto
qed

lemma randint_range:
  assumes "a \<le> b" and "randint a b g = (v, g')"
  shows "a \<le> v \<and> v \<le> b"
proof -
  from assms(1) have pos: "0 < b - a + 1" by simp
  from pos have "int (shd g) mod (b - a + 1) < b - a + 1" by (rule pos_mod_bound)
  moreover from pos have "0 \<le> int (shd g) mod (b - a + 1)" by (rule pos_mod_sign)
  ultimately show ?thesis using assms(2) by (auto simp: randint_def)
qed

lemma choice_member: "xs \<noteq> [] \<Longrightarrow> choice xs g = (x, g') \<Longrightarrow> x \<in> set xs"
  by (auto simp: choice_def)

section \<open>Product images: same inputs, same candidates\<close>

lemma category_seeds_shape:
  assumes "map_of category_seeds c = Some seeds"
  shows "length seeds = 4 \<and> distinct seeds"
proof -
  from assms have "(c, seeds) \<in> set category_seeds" by (rule map_of_SomeD)
  then show ?thesis by (auto simp: category_seeds_def)
qed

lemma picsum_shift_inj: "inj_on (\<lambda>s. picsum (s + k)) A"
  by (rule inj_onI) (auto dest: picsum_inj)

lemma image_urls_length: "length (image_urls h c n) = 4"
  by (auto simp: image_urls_def Let_def split: option.splits dest!: category_seeds_shape)

lemma image_urls_distinct: "distinct (image_urls h c n)"
  by (auto simp: image_urls_def Let_def distinct_map comp_def picsum_shift_inj
      split: option.splits dest!: category_seeds_shape picsum_inj)

lemma get_product_images_returns:
  "\<exists>urls g'. get_product_images h c n g = Some (urls, g')"
  by (simp add: get_product_images_def Let_def randint_def sample_def image_urls_length
      split: prod.splits)

text \<open>
  Claim C9, as amended. Two invocations of \<open>get_product_images\<close> with the same category
  and the same product name build the same list of four candidate URLs (\<open>image_urls\<close>
  depends on nothing else), and each invocation returns between two and four pairwise
  distinct URLs taken from these candidates, chosen by the random draws;
  \<open>create_products\<close> marks the first of them as the primary image.
\<close>

theorem get_product_images_sample:
  assumes "get_product_images h c n g = Some (urls, g')"
  shows "set urls \<subseteq> set (image_urls h c n) \<and> length (image_urls h c n) = 4
    \<and> 2 \<le> length urls \<and> length urls \<le> 4 \<and> distinct urls
    \<and> primary_image urls = Some (hd urls)"
proof -
  obtain num g1 where r: "randint 2 4 g = (num, g1)" by (cases "randint 2 4 g")
  then have num: "2 \<le> num \<and> num \<le> 4" using randint_range [of 2 4 g num g1] by simp
  define k where "k = nat (min num (int (length (image_urls h c n))))"
  from num have k: "k = nat num" "2 \<le> k" "k \<le> 4" by (auto simp: k_def image_urls_length)
  from assms r have s: "sample (image_urls h c n) k g1 = Some (urls, g')"
    by (simp add: get_product_images_def Let_def k_def)
  then have sl: "sample_loop (image_urls h c n) k g1 = (urls, g')"
    by (simp add: sample_def split: if_splits)
  from k have kl: "k \<le> length (image_urls h c n)" by (simp add: image_urls_length)
  from sample_loop_props [OF kl image_urls_distinct sl]
  have p: "length urls = k" "set urls \<subseteq> set (image_urls h c n)" "distinct urls" by simp_all
  from p(1) k have "urls \<noteq> []" by auto
  then have "primary_image urls = Some (hd urls)" by (simp add: primary_image_def hd_conv_nth)
  with p k show ?thesis by (simp add: image_urls_length)
qed

lemma image_urls_argan:
  "image_urls zero_hash (asc ''Argan'') n = [picsum 100, picsum 101, picsum 102, picsum 103]"
  by (simp add: image_urls_def zero_hash_def category_seeds_def)

lemma get_product_images_run_a:
  "get_product_images zero_hash (asc ''Argan'') (asc ''Raw Argan Nuts'') (sconst 0)
     = Some ([picsum 100, picsum 103], sconst 0)"
  by (simp add: get_product_images_def image_urls_argan randint_def sample_def
      numeral_2_eq_2)

lemma get_product_images_run_b:
  "get_product_images zero_hash (asc ''Argan'') (asc ''Raw Argan Nuts'') (0 ## 1 ## 1 ## sconst 0)
     = Some ([picsum 101, picsum 103], sconst 0)"
  by (simp add: get_product_images_def image_urls_argan randint_def sample_def
      numeral_2_eq_2)

text \<open>
  Claim C9 as stated fails: with the same category and product name, two runs of the
  generator return different sets of URLs, and different primary images.
\<close>

theorem get_product_images_same_inputs_counterexample:
  "get_product_images zero_hash (asc ''Argan'') (asc ''Raw Argan Nuts'') (sconst 0)
     = Some ([picsum 100, picsum 103], sconst 0)
   \<and> get_product_images zero_hash (asc ''Argan'') (asc ''Raw Argan Nuts'') (0 ## 1 ## 1 ## sconst 0)
     = Some ([picsum 101, picsum 103], sconst 0)
   \<and> set [picsum 100, picsum 103] \<noteq> set [picsum 101, picsum 103]
   \<and> primary_image [picsum 100, picsum 103] \<noteq> primary_image [picsum 101, picsum 103]"
proof -
  have "picsum 100 \<noteq> picsum 101" "picsum 100 \<noteq> picsum 103"
    using picsum_inj [of 100 101] picsum_inj [of 100 103] by auto
  then have s: "set [picsum 100, picsum 103] \<noteq> set [picsum 101, picsum 103]"
    and p: "primary_image [picsum 100, picsum 103] \<noteq> primary_image [picsum 101, picsum 103]"
    by (auto simp: primary_image_def)
  show ?thesis
    using get_product_images_run_a get_product_images_run_b s p by blast
qed

theorem get_product_images_sample_witness:
  "get_product_images zero_hash (asc ''Argan'') (asc ''Raw Argan Nuts'') (sconst 0)
     = Some ([picsum 100, picsum 103], sconst 0)
   \<and> set [picsum 100, picsum 103]
        \<subseteq> set (image_urls zero_hash (asc ''Argan'') (asc ''Raw Argan Nuts''))
   \<and> length (image_urls zero_hash (asc ''Argan'') (asc ''Raw Argan Nuts'')) = 4
   \<and> 2 \<le> length [picsum 100, picsum 103] \<and> length [picsum 100, picsum 103] \<le> 4
   \<and> distinct [picsum 100, picsum 103]
   \<and> primary_image [picsum 100, picsum 103] = Some (picsum 100)"
  using get_product_images_sample [OF get_product_images_run_a] get_product_images_run_a
  by simp

section \<open>The category of a cooperative: the last matching word decides\<close>

lemma category_loop_find:
  "category_loop c word cats =
     (case List.find (word_matches word) cats of None \<Rightarrow> c | Some entry \<Rightarrow> fst entry)"
  by (induction cats) (auto simp: word_matches_def)

lemma find_None_list_ex: "List.find P xs = None \<longleftrightarrow> \<not> list_ex P xs"
  by (induction xs) auto

lemma category_loop_step:
  "Some (category_loop c word PRODUCT_CATEGORIES) =
     (if matches_any word then category_of_word word else Some c)"
proof (cases "List.find (word_matches word) PRODUCT_CATEGORIES")
  case None
  then have "\<not> matches_any word" by (simp add: matches_any_def find_None_list_ex)
  with None show ?thesis by (simp add: category_loop_find)
next
  case (Some entry)
  then have "List.find (word_matches word) PRODUCT_CATEGORIES \<noteq> None" by simp
  then have "matches_any word" by (simp add: matches_any_def find_None_list_ex)
  with Some show ?thesis by (simp add: category_loop_find category_of_word_def)
qed

lemma find_snoc:
  "List.find P (xs @ [x]) =
     (case List.find P xs of None \<Rightarrow> (if P x then Some x else None) | Some y \<Rightarrow> Some y)"
  by (induction xs) auto

lemma word_loop_last:
  "Some (word_loop c words) =
     (case last_matching_word words of None \<Rightarrow> Some c | Some w \<Rightarrow> category_of_word w)"
proof (induction words arbitrary: c)
  case Nil
  show ?case by (simp add: last_matching_word_def)
next
  case (Cons w ws)
  have "Some (word_loop c (w # ws)) = Some (word_loop (category_loop c w PRODUCT_CATEGORIES) ws)"
    by simp
  also have "\<dots> = (case last_matching_word ws of
        None \<Rightarrow> Some (category_loop c w PRODUCT_CATEGORIES)
      | Some w' \<Rightarrow> category_of_word w')"
    by (rule Cons.IH)
  also have "\<dots> = (case last_matching_word (w # ws) of
        None \<Rightarrow> Some c | Some w' \<Rightarrow> category_of_word w')"
    by (cases "List.find matches_any (rev ws)")
       (simp_all add: category_loop_step last_matching_word_def find_snoc)
  finally show ?case .
qed

lemma determine_category_eq:
  "Some (fst (determine_category coop_name g)) =
     (case last_matching_word (py_split coop_name) of
        None \<Rightarrow> Some (fst (choice (map fst PRODUCT_CATEGORIES) g))
      | Some word \<Rightarrow> category_of_word word)"
  by (simp add: determine_category_def case_prod_beta word_loop_last)

text \<open>
  Claim C7, as amended. The category that \<open>create_products\<close> infers from a cooperative's
  name is decided by the last word of the name that matches a keyword of some category (a
  later matching word overrides an earlier one), and is the first category, in the order
  of the table, that this word matches; if no word matches, the randomly chosen category
  stays.
\<close>

theorem determine_category_last_match:
  "Some (fst (determine_category coop_name g)) =
     (case last_matching_word (py_split coop_name) of
        None \<Rightarrow> Some (fst (choice (map fst PRODUCT_CATEGORIES) g))
      | Some word \<Rightarrow> category_of_word word)"
  by (rule determine_category_eq)

lemma split_olive:
  "py_split (asc ''Agadir Olive Oil Cooperative'')
     = [asc ''Agadir'', asc ''Olive'', asc ''Oil'', asc ''Cooperative'']"
  by (simp add: py_split_def asc_def is_space_def)

lemma matches_agadir: "\<not> matches_any (asc ''Agadir'')"
  by (simp add: matches_any_def word_matches_def PRODUCT_CATEGORIES_def asc_def lower_def
      lower_cp_def)

lemma matches_olive: "matches_any (asc ''Olive'')"
  by (simp add: matches_any_def word_matches_def PRODUCT_CATEGORIES_def asc_def lower_def
      lower_cp_def)

lemma matches_oil: "matches_any (asc ''Oil'')"
  by (simp add: matches_any_def word_matches_def PRODUCT_CATEGORIES_def asc_def lower_def
      lower_cp_def)

lemma matches_cooperative: "\<not> matches_any (asc ''Cooperative'')"
  by (simp add: matches_any_def word_matches_def PRODUCT_CATEGORIES_def asc_def lower_def
      lower_cp_def)

lemma category_of_olive: "category_of_word (asc ''Olive'') = Some (asc ''Olive'')"
  by (simp add: category_of_word_def word_matches_def PRODUCT_CATEGORIES_def asc_def
      lower_def lower_cp_def)

lemma category_of_oil: "category_of_word (asc ''Oil'') = Some (asc ''Argan'')"
  by (simp add: category_of_word_def word_matches_def PRODUCT_CATEGORIES_def asc_def
      lower_def lower_cp_def)

lemma argan_not_olive: "asc ''Argan'' \<noteq> asc ''Olive''"
  by (simp add: asc_def)

lemma last_word_olive_oil:
  "last_matching_word (py_split (asc ''Agadir Olive Oil Cooperative'')) = Some (asc ''Oil'')"
  by (simp add: last_matching_word_def split_olive matches_agadir matches_olive matches_oil
      matches_cooperative)

lemma first_word_olive_oil:
  "first_matching_word (py_split (asc ''Agadir Olive Oil Cooperative'')) = Some (asc ''Olive'')"
  by (simp add: first_matching_word_def split_olive matches_agadir matches_olive)

lemma determine_category_olive_oil:
  "fst (determine_category (asc ''Agadir Olive Oil Cooperative'') g) = asc ''Argan''"
proof -
  have "Some (fst (determine_category (asc ''Agadir Olive Oil Cooperative'') g))
          = Some (asc ''Argan'')"
    by (simp add: determine_category_def case_prod_beta word_loop_last last_word_olive_oil
        category_of_oil)
  then show ?thesis by simp
qed

text \<open>
  Claim C7 as stated fails. In \<open>Agadir Olive Oil Cooperative\<close>, a name that
  \<open>generate_cooperative_name\<close> produces, the first matching word is \<open>Olive\<close>, which
  stands for the category \<open>Olive\<close>; the later word \<open>Oil\<close> matches \<open>Argan Oil\<close> and
  the result is \<open>Argan\<close>.
\<close>

theorem determine_category_first_word_counterexample:
  "first_matching_word (py_split (asc ''Agadir Olive Oil Cooperative'')) = Some (asc ''Olive'')
   \<and> category_of_word (asc ''Olive'') = Some (asc ''Olive'')
   \<and> fst (determine_category (asc ''Agadir Olive Oil Cooperative'') (sconst 0)) = asc ''Argan''
   \<and> asc ''Argan'' \<noteq> asc ''Olive''"
  using first_word_olive_oil category_of_olive determine_category_olive_oil argan_not_olive
  by blast

theorem determine_category_last_match_witness:
  "fst (determine_category (asc ''Agadir Olive Oil Cooperative'') (sconst 0)) = asc ''Argan''
   \<and> last_matching_word (py_split (asc ''Agadir Olive Oil Cooperative'')) = Some (asc ''Oil'')
   \<and> category_of_word (asc ''Oil'') = Some (asc ''Argan'')"
  using determine_category_last_match [of "asc ''Agadir Olive Oil Cooperative''" "sconst 0"]
    last_word_olive_oil category_of_oil
  by simp

lemma generate_cooperative_name_olive_oil:
  "generate_cooperative_name (MOROCCAN_REGIONS ! 7) (asc ''Agadir'') (1 ## 2 ## g)
     = (asc ''Agadir Olive Oil Cooperative'', g)"
  by (simp add: generate_cooperative_name_def choice_def PRODUCT_CATEGORIES_def asc_def)

section \<open>Prices and units: the product name decides\<close>

lemma random_float_range: "random_float g = (u, g') \<Longrightarrow> 0 \<le> u \<and> u < 1"
proof -
  assume a: "random_float g = (u, g')"
  have "shd g mod 2 ^ 53 < (2::nat) ^ 53" by simp
  then have "(of_nat (shd g mod 2 ^ 53) :: rat) < of_nat (2 ^ 53)"
    by (simp only: of_nat_less_iff)
  then have "(of_nat (shd g mod 2 ^ 53) :: rat) / 2 ^ 53 < 1" by simp
  with a show ?thesis by (auto simp: random_float_def)
qed

lemma uniform_range:
  assumes "a \<le> b" and "uniform a b g = (x, g')"
  shows "a \<le> x \<and> x \<le> b"
proof -
  obtain u h where r: "random_float g = (u, h)" by (cases "random_float g")
  then have u: "0 \<le> u" "u < 1" using random_float_range by blast+
  from assms(2) r have x: "x = a + (b - a) * u" by (simp add: uniform_def)
  from assms(1) u have "0 \<le> (b - a) * u" by simp
  moreover from assms(1) u have "(b - a) * u \<le> (b - a) * 1"
    by (intro mult_left_mono) simp_all
  ultimately show ?thesis using x by simp
qed

lemma round_half_even_range:
  assumes "of_int m \<le> y" and "y \<le> of_int n"
  shows "m \<le> round_half_even y \<and> round_half_even y \<le> n"
proof -
  let ?f = "\<lfloor>y\<rfloor>"
  from assms have f: "m \<le> ?f" "?f \<le> n" by (simp_all add: le_floor_iff floor_le_iff)
  show ?thesis
  proof (cases "y = of_int ?f")
    case True
    then have "y - of_int ?f = 0" by simp
    then have "round_half_even y = ?f" by (simp add: round_half_even_def Let_def)
    with f show ?thesis by simp
  next
    case False
    then have "of_int ?f < y" by (metis of_int_floor_le order_less_le)
    with assms(2) have "of_int ?f < (of_int n :: rat)" by simp
    then have "?f < n" by simp
    moreover have "round_half_even y = ?f \<or> round_half_even y = ?f + 1"
      by (simp add: round_half_even_def Let_def)
    ultimately show ?thesis using f by auto
  qed
qed

lemma py_round_2_range:
  assumes "of_int a \<le> x" and "x \<le> of_int b"
  shows "of_int a \<le> py_round x 2 \<and> py_round x 2 \<le> of_int b"
proof -
  from assms have "of_int (a * 100) \<le> x * 100" "x * 100 \<le> of_int (b * 100)" by simp_all
  from round_half_even_range [OF this]
  have r: "a * 100 \<le> round_half_even (x * 100)" "round_half_even (x * 100) \<le> b * 100"
    by simp_all
  from r(1) have "(of_int (a * 100) :: rat) \<le> of_int (round_half_even (x * 100))"
    by (simp only: of_int_le_iff)
  moreover from r(2) have "(of_int (round_half_even (x * 100)) :: rat) \<le> of_int (b * 100)"
    by (simp only: of_int_le_iff)
  ultimately show ?thesis by (simp add: py_round_def field_simps)
qed

lemma priced_range:
  assumes "uniform (of_int a) (of_int b) g = (x, g')" and "a \<le> b"
  shows "of_int a \<le> py_round x 2 \<and> py_round x 2 \<le> of_int b"
proof -
  from assms(2) have "(of_int a :: rat) \<le> of_int b" by simp
  from uniform_range [OF this assms(1)] show ?thesis using py_round_2_range by blast
qed

lemma price_and_unit_by_name:
  assumes "price_and_unit product_name g = ((price, u), g')"
  shows "obeys (name_price_rule product_name) price u"
proof -
  have r: "uniform a b g = (x, h) \<Longrightarrow> a = of_int a' \<Longrightarrow> b = of_int b' \<Longrightarrow> a' \<le> b'
      \<Longrightarrow> a \<le> py_round x 2 \<and> py_round x 2 \<le> b" for a b x h a' b'
    using priced_range [of a' b' g x h] by simp
  obtain x1 h1 where u1: "uniform 150 500 g = (x1, h1)" by (cases "uniform 150 500 g")
  obtain x2 h2 where u2: "uniform 80 300 g = (x2, h2)" by (cases "uniform 80 300 g")
  obtain x3 h3 where u3: "uniform 40 120 g = (x3, h3)" by (cases "uniform 40 120 g")
  obtain x4 h4 where u4: "uniform 800 2000 g = (x4, h4)" by (cases "uniform 800 2000 g")
  obtain x5 h5 where u5: "uniform 60 150 g = (x5, h5)" by (cases "uniform 60 150 g")
  obtain x6 h6 where u6: "uniform 30 150 g = (x6, h6)" by (cases "uniform 30 150 g")
  obtain x7 h7 where u7: "uniform 50 300 g = (x7, h7)" by (cases "uniform 50 300 g")
  obtain c7 k7 where c7: "choice [asc ''kg'', asc ''piece'', asc ''set'', asc ''100g''] h7 = (c7, k7)"
    by (cases "choice [asc ''kg'', asc ''piece'', asc ''set'', asc ''100g''] h7")
  have b1: "150 \<le> py_round x1 2 \<and> py_round x1 2 \<le> 500" using r [OF u1, of 150 500] by simp
  have b2: "80 \<le> py_round x2 2 \<and> py_round x2 2 \<le> 300" using r [OF u2, of 80 300] by simp
  have b3: "40 \<le> py_round x3 2 \<and> py_round x3 2 \<le> 120" using r [OF u3, of 40 120] by simp
  have b4: "800 \<le> py_round x4 2 \<and> py_round x4 2 \<le> 2000" using r [OF u4, of 800 2000] by simp
  have b5: "60 \<le> py_round x5 2 \<and> py_round x5 2 \<le> 150" using r [OF u5, of 60 150] by simp
  have b6: "30 \<le> py_round x6 2 \<and> py_round x6 2 \<le> 150" using r [OF u6, of 30 150] by simp
  have b7: "50 \<le> py_round x7 2 \<and> py_round x7 2 \<le> 300" using r [OF u7, of 50 300] by simp
  from c7 have m7: "c7 \<in> set [asc ''kg'', asc ''piece'', asc ''set'', asc ''100g'']"
    by (rule choice_member [rotated]) simp
  from assms u1 u2 u3 u4 u5 u6 u7 c7 b1 b2 b3 b4 b5 b6 b7 m7 show ?thesis
    by (auto simp: price_and_unit_def name_price_rule_def obeys_def
        split: if_splits)
qed

lemma split_spices:
  "py_split (asc ''Agadir Spices Cooperative'') = [asc ''Agadir'', asc ''Spices'', asc ''Cooperative'']"
  by (simp add: py_split_def asc_def is_space_def)

lemma matches_spices: "matches_any (asc ''Spices'')"
  by (simp add: matches_any_def word_matches_def PRODUCT_CATEGORIES_def asc_def lower_def
      lower_cp_def)

lemma category_of_spices: "category_of_word (asc ''Spices'') = Some (asc ''Spices'')"
  by (simp add: category_of_word_def word_matches_def PRODUCT_CATEGORIES_def asc_def
      lower_def lower_cp_def)

lemma determine_category_spices:
  "determine_category (asc ''Agadir Spices Cooperative'') g = (asc ''Spices'', stl g)"
proof -
  have "Some (fst (determine_category (asc ''Agadir Spices Cooperative'') g))
          = Some (asc ''Spices'')"
    by (simp add: determine_category_eq last_matching_word_def split_spices
        matches_agadir matches_spices matches_cooperative category_of_spices)
  moreover have "snd (determine_category (asc ''Agadir Spices Cooperative'') g) = stl g"
    by (simp add: determine_category_def choice_def)
  ultimately show ?thesis by (metis option.inject prod.collapse)
qed

lemma generate_product_name_cumin:
  "shd g mod 6 = 3 \<Longrightarrow>
     generate_product_name (asc ''Spices'') n g = (asc ''Cumin Seeds'', stl g)"
  by (simp add: generate_product_name_def product_names_def choice_def asc_def)

lemma price_and_unit_cumin:
  "shd g = 4503599627370496 \<Longrightarrow> shd (stl g) mod 4 = 1 \<Longrightarrow>
     price_and_unit (asc ''Cumin Seeds'') g = ((175, asc ''piece''), stl (stl g))"
  by (simp add: price_and_unit_def asc_def kw_oil_def kw_honey_def kw_dates_def kw_saffron_def
      kw_almonds_def kw_spices_def uniform_def random_float_def choice_def py_round_def
      round_half_even_def)

lemma images_cumin:
  "shd g = 0 \<Longrightarrow> shd (stl g) = 0 \<Longrightarrow> shd (stl (stl g)) = 0 \<Longrightarrow>
     get_product_images zero_hash (asc ''Spices'') (asc ''Cumin Seeds'') g
       = Some ([picsum 700, picsum 703], stl (stl (stl g)))"
  by (simp add: get_product_images_def image_urls_def zero_hash_def category_seeds_def
      randint_def sample_def numeral_2_eq_2 asc_def)

lemma new_product_cumin:
  "new_product demo_env 13 demo_cooperative (asc ''Spices'')
      (3 ## 4503599627370496 ## 5 ## 0 ## 0 ## 0 ## 0 ## 0 ## g)
     = Some (demo_product, g)"
  by (simp add: new_product_def generate_product_name_cumin price_and_unit_cumin
      images_cumin randint_def demo_env_def demo_cooperative_def primary_image_def
      date_time_between_def timedelta_days_def demo_product_def)

lemma generate_products_demo:
  "generate_products demo_env demo_db [13] 1
      (0 ## 3 ## 4503599627370496 ## 5 ## 0 ## 0 ## 0 ## 0 ## 0 ## g)
     = Some ([demo_product], g)"
proof -
  have f: "find_one (\<lambda>(i, c). i = 13) (db_cooperatives demo_db) = Some (13, demo_cooperative)"
    by (simp add: find_one_def demo_db_def)
  have n: "c_name demo_cooperative = asc ''Agadir Spices Cooperative''"
    by (simp add: demo_cooperative_def)
  show ?thesis
    by (simp add: generate_products_def f n determine_category_spices new_product_cumin)
qed

lemma products_loop_all:
  assumes step: "\<And>g p g'. new_product e coop_id coop category g = Some (p, g') \<Longrightarrow> Q p"
  shows "products_loop e coop_id coop category n (acc, g) = Some (ps, g')
     \<Longrightarrow> \<forall>p \<in> set acc. Q p \<Longrightarrow> \<forall>p \<in> set ps. Q p"
proof (induction n arbitrary: acc g)
  case 0
  then show ?case by simp
next
  case (Suc n)
  from Suc.prems(1) obtain p h where np: "new_product e coop_id coop category g = Some (p, h)"
    and rest: "products_loop e coop_id coop category n (acc @ [p], h) = Some (ps, g')"
    by (auto split: option.splits)
  from step [OF np] Suc.prems(2) have "\<forall>q \<in> set (acc @ [p]). Q q" by simp
  from Suc.IH [OF rest this] show ?case .
qed

lemma coops_loop_all:
  assumes step: "\<And>coop_id coop category g p g'.
      new_product e coop_id coop category g = Some (p, g') \<Longrightarrow> Q p"
  shows "coops_loop e db ppc ids (acc, g) = Some (ps, g')
     \<Longrightarrow> \<forall>p \<in> set acc. Q p \<Longrightarrow> \<forall>p \<in> set ps. Q p"
proof (induction ids arbitrary: acc g)
  case Nil
  then show ?case by simp
next
  case (Cons coop_id rest)
  show ?case
  proof (cases "find_one (\<lambda>(i, c). i = coop_id) (db_cooperatives db)")
    case None
    with Cons.prems(1) have "coops_loop e db ppc rest (acc, g) = Some (ps, g')" by simp
    from Cons.IH [OF this Cons.prems(2)] show ?thesis .
  next
    case (Some doc)
    obtain i coop where doc: "doc = (i, coop)" by (cases doc)
    obtain category g1 where dc: "determine_category (c_name coop) g = (category, g1)"
      by (cases "determine_category (c_name coop) g")
    from Cons.prems(1) Some doc dc obtain acc' h
      where pl: "products_loop e coop_id coop category ppc (acc, g1) = Some (acc', h)"
        and rest: "coops_loop e db ppc rest (acc', h) = Some (ps, g')"
      by (auto split: option.splits)
    from products_loop_all [of e coop_id coop category Q, OF step pl Cons.prems(2)]
    have "\<forall>p \<in> set acc'. Q p" .
    from Cons.IH [OF rest this] show ?thesis .
  qed
qed

lemma new_product_priced:
  assumes "new_product e coop_id coop category g = Some (p, g')"
  shows "obeys (name_price_rule (p_name p)) (p_price p) (p_unit p)"
proof -
  obtain n g1 where gn: "generate_product_name category (c_name coop) g = (n, g1)"
    by (cases "generate_product_name category (c_name coop) g")
  obtain price u g2 where pu: "price_and_unit n g1 = ((price, u), g2)"
    by (metis surj_pair)
  from assms gn pu have "p_name p = n" "p_price p = price" "p_unit p = u"
    by (auto simp: new_product_def Let_def split: prod.splits option.splits)
  with price_and_unit_by_name [OF pu] show ?thesis by simp
qed

text \<open>
  Claim C8, as amended. For every generated product, the price range and the unit are
  decided by keywords in the product's name, the first rule that applies winning: a name
  with \<open>Oil\<close> is priced 150 to 500 per liter, a name with the Arabic word for oil 150 to
  500 per kilo (in Arabic), then honey 80 to 300 per kg, dates 40 to 120 per kg, saffron
  800 to 2000 per 100g, almonds 60 to 150 per kg, spices 30 to 150 per 100g, each by its
  English or Arabic keyword, and any other name 50 to 300 with one of the units kg, piece,
  set and 100g.
\<close>

theorem products_priced_by_name:
  assumes "generate_products e db cooperative_ids products_per_coop g = Some (ps, g')"
  shows "\<forall>p \<in> set ps. obeys (name_price_rule (p_name p)) (p_price p) (p_unit p)"
proof -
  from assms have "coops_loop e db products_per_coop cooperative_ids ([], g) = Some (ps, g')"
    by (simp add: generate_products_def)
  then show ?thesis
    by (rule coops_loop_all [where Q = "\<lambda>p. obeys (name_price_rule (p_name p)) (p_price p) (p_unit p)",
          rotated]) (auto dest: new_product_priced)
qed

lemma name_rule_cumin:
  "name_price_rule (asc ''Cumin Seeds'')
     = (50, 300, [asc ''kg'', asc ''piece'', asc ''set'', asc ''100g''])"
  by (simp add: name_price_rule_def asc_def kw_oil_def kw_honey_def kw_dates_def
      kw_saffron_def kw_almonds_def kw_spices_def)

theorem products_priced_by_name_witness:
  "generate_products demo_env demo_db [13] 1
      (0 ## 3 ## 4503599627370496 ## 5 ## 0 ## 0 ## 0 ## 0 ## 0 ## sconst 0)
     = Some ([demo_product], sconst 0)
   \<and> obeys (50, 300, [asc ''kg'', asc ''piece'', asc ''set'', asc ''100g''])
        (p_price demo_product) (p_unit demo_product)"
  using products_priced_by_name [OF generate_products_demo [of "sconst 0"]]
    generate_products_demo [of "sconst 0"] name_rule_cumin
  by (simp add: demo_product_def)

text \<open>
  Claim C8 as stated fails. The cooperative \<open>Agadir Spices Cooperative\<close> has the inferred
  category \<open>Spices\<close>; its product \<open>Cumin Seeds\<close>, a name from the pool of that
  category, has none of the keywords and gets the price 175 and the unit \<open>piece\<close>,
  outside the row of the category (30 to 150, per 100g).
\<close>

theorem products_priced_by_category_counterexample:
  "generate_products demo_env demo_db [13] 1
      (0 ## 3 ## 4503599627370496 ## 5 ## 0 ## 0 ## 0 ## 0 ## 0 ## sconst 0)
     = Some ([demo_product], sconst 0)
   \<and> determine_category (c_name demo_cooperative) (sconst 0)
       = (asc ''Spices'', sconst 0)
   \<and> p_name demo_product = asc ''Cumin Seeds''
   \<and> p_price demo_product = 175 \<and> p_unit demo_product = asc ''piece''
   \<and> category_price_rule (asc ''Spices'') = (30, 150, [asc ''100g''])
   \<and> \<not> obeys (category_price_rule (asc ''Spices'')) (p_price demo_product) (p_unit demo_product)"
proof -
  have c: "category_price_rule (asc ''Spices'') = (30, 150, [asc ''100g''])"
    by (simp add: category_price_rule_def asc_def)
  have d: "determine_category (c_name demo_cooperative) (sconst 0)
       = (asc ''Spices'', sconst 0)"
    using determine_category_spices [of "sconst 0"] by (simp add: demo_cooperative_def)
  have o: "\<not> obeys (category_price_rule (asc ''Spices'')) (p_price demo_product) (p_unit demo_product)"
    by (simp add: c obeys_def demo_product_def)
  have f: "p_name demo_product = asc ''Cumin Seeds''" "p_price demo_product = 175"
    "p_unit demo_product = asc ''piece''" by (simp_all add: demo_product_def)
  show ?thesis using generate_products_demo [of "sconst 0"] c d o f by blast
qed

section \<open>Transactions and their logs\<close>

subsection \<open>Batches, shuffling and the statuses\<close>

lemma append_documents_append:
  "append_documents (xs @ ys) st =
     (let (st1, ids) = append_documents xs st; (st2, ids') = append_documents ys st1
      in (st2, ids @ ids'))"
proof -
  obtain coll n where st: "st = (coll, n)" by (cases st)
  have u: "[n..<n + (length xs + length ys)] = [n..<n + length xs] @ [n + length xs..<n + length xs + length ys]"
    by (metis add.assoc le_add1 upt_add_eq_append)
  show ?thesis by (simp add: append_documents_def st u)
qed

text \<open>
  The batched insertion never raises for a batch size above 0, since no slice is empty:
  it stores what one insertion of the whole list would store.
\<close>

lemma insert_batches_eq: "0 < b \<Longrightarrow> insert_batches b docs st = Inr (append_documents docs st)"
proof (induction b docs st rule: insert_batches.induct)
  case (1 b docs st)
  show ?case
  proof (cases "docs = []")
    case True
    with "1.prems" show ?thesis
      by (simp add: insert_batches.simps [of b "[]" st] append_documents_def split: prod.splits)
  next
    case False
    obtain st1 ids where i1: "append_documents (take b docs) st = (st1, ids)"
      by (cases "append_documents (take b docs) st")
    from "1.prems" False have im: "insert_many (take b docs) st = Inr (st1, ids)"
      by (simp add: insert_many_def i1)
    have ih: "insert_batches b (drop b docs) st1 = Inr (append_documents (drop b docs) st1)"
      by (rule "1.IH" [OF _ False im]) (use "1.prems" in simp_all)
    have "append_documents docs st = append_documents (take b docs @ drop b docs) st" by simp
    also have "\<dots> = (let (st1, ids) = append_documents (take b docs) st;
                         (st2, ids') = append_documents (drop b docs) st1
                     in (st2, ids @ ids'))"
      by (rule append_documents_append)
    finally show ?thesis using "1.prems" False im ih i1
      by (simp add: insert_batches.simps [of b docs st] split: prod.splits)
  qed
qed

lemma shuffle_loop_mset:
  "i < length x \<Longrightarrow> shuffle_loop i x g = (y, g') \<Longrightarrow> mset y = mset x"
proof (induction i arbitrary: x g)
  case 0
  then show ?case by simp
next
  case (Suc i)
  define j where "j = shd g mod (Suc i + 1)"
  have j: "j < length x" using Suc.prems(1) by (simp add: j_def) (metis Suc_lessI less_trans_Suc mod_less_divisor not_less_eq zero_less_Suc)
  from Suc.prems(1) have si: "Suc i < length x" .
  let ?x' = "x[Suc i := x ! j, j := x ! Suc i]"
  have m: "mset ?x' = mset x" using j si by (rule mset_swap)
  have "i < length ?x'" using si by simp
  moreover from Suc.prems(2) have "shuffle_loop i ?x' (stl g) = (y, g')"
    by (simp add: j_def Let_def)
  ultimately have "mset y = mset ?x'" by (rule Suc.IH)
  with m show ?case by simp
qed

lemma shuffle_mset: "shuffle x g = (y, g') \<Longrightarrow> mset y = mset x"
proof (cases "x = []")
  case True
  assume "shuffle x g = (y, g')"
  with True show ?thesis by (simp add: shuffle_def)
next
  case False
  assume "shuffle x g = (y, g')"
  then have "shuffle_loop (length x - 1) x g = (y, g')" by (simp add: shuffle_def)
  moreover from False have "length x - 1 < length x" by (cases x) simp_all
  ultimately show ?thesis by (rule shuffle_loop_mset [rotated])
qed

lemma initial_statuses_set:
  "set (initial_statuses T) \<subseteq> {SETTLED, DELIVERED, SHIPPED, ESCROWED, FAILED}"
  by (auto simp: initial_statuses_def status_weights_def Let_def)

lemma initial_statuses_length: "T \<le> length (initial_statuses T)"
  by (simp add: initial_statuses_def Let_def)

lemma shuffled_statuses:
  assumes "shuffle (initial_statuses T) g = (statuses, g')" and "i < T"
  shows "statuses ! i \<in> {SETTLED, DELIVERED, SHIPPED, ESCROWED, FAILED}"
proof -
  from shuffle_mset [OF assms(1)] have m: "mset statuses = mset (initial_statuses T)" .
  then have "length statuses = length (initial_statuses T)" by (rule mset_eq_length)
  with assms(2) initial_statuses_length [of T] have "i < length statuses" by simp
  then have "statuses ! i \<in> set statuses" by simp
  also from m have "set statuses = set (initial_statuses T)" by (rule mset_eq_setD)
  finally show ?thesis using initial_statuses_set by blast
qed

subsection \<open>An invariant of the transaction loop\<close>

text \<open>What \<open>new_transaction\<close> writes into the record.\<close>

lemma new_transaction_refs:
  "t_buyerId (fst (new_transaction e st b p s g)) = fst b
   \<and> t_sellerId (fst (new_transaction e st b p s g)) = s
   \<and> t_productId (fst (new_transaction e st b p s g)) = fst p
   \<and> t_status (fst (new_transaction e st b p s g)) = st"
  by (simp add: new_transaction_def Let_def split: prod.splits option.splits)

lemma new_transaction_amounts:
  "t_amount (fst (new_transaction e st b p s g))
     = py_round (p_price (snd p) * of_int (t_quantity (fst (new_transaction e st b p s g)))) 2
   \<and> t_fee (fst (new_transaction e st b p s g))
     = py_round (t_amount (fst (new_transaction e st b p s g)) * 0.05) 2
   \<and> t_totalAmount (fst (new_transaction e st b p s g))
     = py_round (t_amount (fst (new_transaction e st b p s g))
         + t_fee (fst (new_transaction e st b p s g))) 2"
  by (simp add: new_transaction_def Let_def split: prod.splits option.splits)

lemma new_transaction_proofs:
  "(t_qrSignature (fst (new_transaction e st b p s g)) \<noteq> None \<longleftrightarrow> st = DELIVERED \<or> st = SETTLED)
   \<and> (t_settledAt (fst (new_transaction e st b p s g)) \<noteq> None \<longleftrightarrow> st = SETTLED)
   \<and> (st = SETTLED \<longrightarrow>
        (\<exists>d. 1 \<le> d \<and> d \<le> 7
           \<and> t_settledAt (fst (new_transaction e st b p s g))
               = Some (t_createdAt (fst (new_transaction e st b p s g)) + timedelta_days d)))"
proof -
  have r: "randint 1 7 h = (d, h') \<Longrightarrow> 1 \<le> d \<and> d \<le> 7" for h d h'
    using randint_range [of 1 7 h d h'] by simp
  show ?thesis
    by (auto simp: new_transaction_def Let_def split: prod.splits option.splits dest: r)
qed

lemma transactions_loop_all:
  assumes ne: "buyers \<noteq> []" "prods \<noteq> []"
    and step: "\<And>j b p s h. i0 \<le> j \<Longrightarrow> j < T \<Longrightarrow> b \<in> set buyers \<Longrightarrow> p \<in> set prods
        \<Longrightarrow> cooperatives_get coops (p_cooperativeId (snd p)) = Some s
        \<Longrightarrow> Q (fst (new_transaction e (statuses ! j) b p s h))"
  shows "transactions_loop e buyers prods coops statuses i n (txs, g) = (txs', g')
     \<Longrightarrow> i0 \<le> i \<Longrightarrow> i + n \<le> T \<Longrightarrow> \<forall>tx \<in> set txs. Q tx \<Longrightarrow> \<forall>tx \<in> set txs'. Q tx"
proof (induction n arbitrary: i txs g)
  case 0
  then show ?case by simp
next
  case (Suc n)
  obtain b g1 where cb: "choice buyers g = (b, g1)" by (cases "choice buyers g")
  obtain p g2 where cp: "choice prods g1 = (p, g2)" by (cases "choice prods g1")
  from choice_member [OF ne(1) cb] have b: "b \<in> set buyers" .
  from choice_member [OF ne(2) cp] have p: "p \<in> set prods" .
  from Suc.prems(2,3) have i: "i0 \<le> Suc i" "Suc i + n \<le> T" "i < T" by simp_all
  show ?case
  proof (cases "cooperatives_get coops (p_cooperativeId (snd p))")
    case None
    with Suc.prems(1) cb cp
    have "transactions_loop e buyers prods coops statuses (Suc i) n (txs, g2) = (txs', g')"
      by simp
    from Suc.IH [OF this i(1,2) Suc.prems(4)] show ?thesis .
  next
    case (Some s)
    obtain tx g3 where nt: "new_transaction e (statuses ! i) b p s g2 = (tx, g3)"
      by (cases "new_transaction e (statuses ! i) b p s g2")
    with Suc.prems(1) cb cp Some
    have l: "transactions_loop e buyers prods coops statuses (Suc i) n (txs @ [tx], g3) = (txs', g')"
      by simp
    from step [OF Suc.prems(2) i(3) b p Some, of g2] nt have "Q tx" by simp
    with Suc.prems(4) have "\<forall>t \<in> set (txs @ [tx]). Q t" by simp
    from Suc.IH [OF l i(1,2) this] show ?thesis .
  qed
qed

lemma generate_transactions_all:
  assumes gen: "generate_transactions e db T g = Some (txs, g')"
    and step: "\<And>st b p s h. st \<in> {SETTLED, DELIVERED, SHIPPED, ESCROWED, FAILED}
        \<Longrightarrow> p \<in> set (db_products db)
        \<Longrightarrow> cooperatives_get (db_cooperatives db) (p_cooperativeId (snd p)) = Some s
        \<Longrightarrow> Q (fst (new_transaction e st b p s h))"
  shows "\<forall>tx \<in> set txs. Q tx"
proof -
  define buyers where "buyers = limit 500 (filter (\<lambda>(i, u). u_role u = BUYER) (db_users db))"
  obtain statuses g1 where sh: "shuffle (initial_statuses T) g = (statuses, g1)"
    by (cases "shuffle (initial_statuses T) g")
  from gen have ne: "buyers \<noteq> []" "db_products db \<noteq> []"
    by (auto simp: generate_transactions_def buyers_def Let_def split: if_splits)
  from gen sh ne
  have l: "transactions_loop e buyers (db_products db) (db_cooperatives db) statuses 0 T ([], g1)
      = (txs, g')"
    by (simp add: generate_transactions_def buyers_def Let_def split: if_splits)
  have "\<forall>tx \<in> set txs. Q tx"
  proof (rule transactions_loop_all [OF ne _ l, of 0 T Q])
    fix j b p s h
    assume "j < T" "p \<in> set (db_products db)"
      "cooperatives_get (db_cooperatives db) (p_cooperativeId (snd p)) = Some s"
    with shuffled_statuses [OF sh] show "Q (fst (new_transaction e (statuses ! j) b p s h))"
      by (intro step) auto
  qed simp_all
  then show ?thesis .
qed

subsection \<open>A concrete run\<close>

lemma initial_statuses_1: "initial_statuses (Suc 0) = [SETTLED]"
  by (simp add: initial_statuses_def status_weights_def)

lemma new_transaction_demo:
  "new_transaction demo_env SETTLED (12, demo_buyer) (14, demo_product) 11 (sconst 0)
     = (demo_transaction, sconst 0)"
  by (simp add: new_transaction_def randint_def demo_product_def py_round_def
      round_half_even_def date_time_between_def timedelta_days_def random_float_def
      demo_env_def demo_digest_def demo_transaction_def asc_def)

lemma generate_transactions_demo:
  "generate_transactions demo_env demo_db 1 (sconst 0) = Some ([demo_transaction], sconst 0)"
proof -
  have b: "limit 500 (filter (\<lambda>(i, u). u_role u = BUYER) (db_users demo_db)) = [(12, demo_buyer)]"
    by (simp add: limit_def demo_db_def demo_users_def demo_admin_def demo_producer_def
        demo_buyer_def)
  have o: "cooperatives_get (db_cooperatives demo_db) 13 = Some 11"
    by (simp add: cooperatives_get_def demo_db_def demo_cooperative_def)
  have p: "db_products demo_db = [(14, demo_product)]" by (simp add: demo_db_def)
  have c: "p_cooperativeId demo_product = 13" by (simp add: demo_product_def)
  show ?thesis
    by (simp add: generate_transactions_def b p c o initial_statuses_1 shuffle_def choice_def
        new_transaction_demo)
qed

subsection \<open>Sellers, amounts and proofs of delivery\<close>

lemma cooperatives_get_owner:
  assumes "distinct (map fst coll)"
  shows "cooperatives_get coll cid = Some owner
     \<longleftrightarrow> (\<exists>c. (cid, c) \<in> set coll \<and> c_userId c = Some owner)"
proof -
  let ?l = "rev (map (\<lambda>(i, c). (i, c_userId c)) coll)"
  have "map fst ?l = rev (map fst coll)" by (simp add: rev_map case_prod_beta comp_def)
  with assms have d: "distinct (map fst ?l)" by simp
  have "cooperatives_get coll cid = Some owner \<longleftrightarrow> map_of ?l cid = Some (Some owner)"
    by (simp add: cooperatives_get_def split: option.splits)
  also have "\<dots> \<longleftrightarrow> (cid, Some owner) \<in> set ?l" using d by (rule map_of_eq_Some_iff)
  also have "\<dots> \<longleftrightarrow> (\<exists>c. (cid, c) \<in> set coll \<and> c_userId c = Some owner)" by force
  finally show ?thesis .
qed

text \<open>
  Claim C3. In every transaction that \<open>create_transactions\<close> generates, \<open>sellerId\<close> is the
  \<open>userId\<close> of the cooperative whose id is the \<open>cooperativeId\<close> of the product that
  \<open>productId\<close> refers to (ids are unique within a collection). A round of the loop whose
  product has no owner in the dictionary leaves the list of transactions as it is and the
  loop goes on with the next round.
\<close>

theorem transactions_seller_owns_product:
  assumes "generate_transactions e db T g = Some (txs, g')"
    and "distinct (map fst (db_cooperatives db))"
    and "distinct (map fst (db_products db))"
  shows "(\<forall>tx \<in> set txs.
            (\<exists>p c. (t_productId tx, p) \<in> set (db_products db)
               \<and> (p_cooperativeId p, c) \<in> set (db_cooperatives db)
               \<and> c_userId c = Some (t_sellerId tx))
          \<and> (\<forall>p c. (t_productId tx, p) \<in> set (db_products db)
               \<longrightarrow> (p_cooperativeId p, c) \<in> set (db_cooperatives db)
               \<longrightarrow> c_userId c = Some (t_sellerId tx)))
     \<and> (\<forall>buyers prods coops statuses i n acc h.
          (let (b, h1) = choice buyers h; (p, h2) = choice prods h1
           in cooperatives_get coops (p_cooperativeId (snd p)) = None
              \<longrightarrow> transactions_loop e buyers prods coops statuses i (Suc n) (acc, h)
                  = transactions_loop e buyers prods coops statuses (Suc i) n (acc, h2)))"
proof -
  let ?Q = "\<lambda>tx. \<exists>p c. (t_productId tx, p) \<in> set (db_products db)
               \<and> (p_cooperativeId p, c) \<in> set (db_cooperatives db)
               \<and> c_userId c = Some (t_sellerId tx)"
  have ex: "\<forall>tx \<in> set txs. ?Q tx"
  proof (rule generate_transactions_all [OF assms(1)])
    fix st b p s h
    assume p: "p \<in> set (db_products db)"
      and s: "cooperatives_get (db_cooperatives db) (p_cooperativeId (snd p)) = Some s"
    from s obtain c where "(p_cooperativeId (snd p), c) \<in> set (db_cooperatives db)"
      "c_userId c = Some s"
      using cooperatives_get_owner [OF assms(2)] by blast
    moreover from p have "(fst p, snd p) \<in> set (db_products db)" by simp
    ultimately show "?Q (fst (new_transaction e st b p s h))"
      using new_transaction_refs [of e st b p s h] by metis
  qed
  have un: "c_userId c = Some (t_sellerId tx)"
    if tx: "tx \<in> set txs" and p: "(t_productId tx, p) \<in> set (db_products db)"
      and c: "(p_cooperativeId p, c) \<in> set (db_cooperatives db)" for tx p c
  proof -
    from ex tx obtain p' c' where p': "(t_productId tx, p') \<in> set (db_products db)"
      and c': "(p_cooperativeId p', c') \<in> set (db_cooperatives db)"
      and o: "c_userId c' = Some (t_sellerId tx)" by blast
    from assms(3) p p' have "p = p'" by (metis eq_key_imp_eq_value)
    with assms(2) c c' have "c = c'" by (metis eq_key_imp_eq_value)
    with o show ?thesis by simp
  qed
  have skip: "\<forall>buyers prods coops statuses i n acc h.
          (let (b, h1) = choice buyers h; (p, h2) = choice prods h1
           in cooperatives_get coops (p_cooperativeId (snd p)) = None
              \<longrightarrow> transactions_loop e buyers prods coops statuses i (Suc n) (acc, h)
                  = transactions_loop e buyers prods coops statuses (Suc i) n (acc, h2))"
    by (simp split: prod.splits)
  from ex un skip show ?thesis by blast
qed

theorem transactions_seller_owns_product_witness:
  "generate_transactions demo_env demo_db 1 (sconst 0) = Some ([demo_transaction], sconst 0)
   \<and> distinct (map fst (db_cooperatives demo_db))
   \<and> distinct (map fst (db_products demo_db))
   \<and> (\<exists>p c. (t_productId demo_transaction, p) \<in> set (db_products demo_db)
          \<and> (p_cooperativeId p, c) \<in> set (db_cooperatives demo_db)
          \<and> c_userId c = Some (t_sellerId demo_transaction))
   \<and> (14, demo_product) \<in> set (db_products demo_db)
   \<and> (13, demo_cooperative) \<in> set (db_cooperatives demo_db)
   \<and> c_userId demo_cooperative = Some 11 \<and> t_sellerId demo_transaction = 11
   \<and> cooperatives_get [] (p_cooperativeId demo_product) = None
   \<and> transactions_loop demo_env [(12, demo_buyer)] [(14, demo_product)] [] [SETTLED] 0 (Suc 0)
         ([], sconst 0) = ([], sconst 0)"
proof -
  have d: "distinct (map fst (db_cooperatives demo_db))" "distinct (map fst (db_products demo_db))"
    by (simp_all add: demo_db_def)
  have m: "(14, demo_product) \<in> set (db_products demo_db)"
    "(13, demo_cooperative) \<in> set (db_cooperatives demo_db)"
    "c_userId demo_cooperative = Some 11" "t_sellerId demo_transaction = 11"
    by (simp_all add: demo_db_def demo_cooperative_def demo_transaction_def)
  note t = transactions_seller_owns_product [OF generate_transactions_demo d]
  from t have e: "\<exists>p c. (t_productId demo_transaction, p) \<in> set (db_products demo_db)
          \<and> (p_cooperativeId p, c) \<in> set (db_cooperatives demo_db)
          \<and> c_userId c = Some (t_sellerId demo_transaction)" by simp
  have n: "cooperatives_get [] (p_cooperativeId demo_product) = None"
    by (simp add: cooperatives_get_def)
  from t have sk: "let (b, h1) = choice buyers h; (p, h2) = choice prods h1
        in cooperatives_get coops (p_cooperativeId (snd p)) = None
           \<longrightarrow> transactions_loop demo_env buyers prods coops statuses i (Suc n) (acc, h)
               = transactions_loop demo_env buyers prods coops statuses (Suc i) n (acc, h2)"
    for buyers prods coops statuses i n acc h
    by blast
  note sk [of "[(12, demo_buyer)]" "sconst 0" "[(14, demo_product)]" "[]" "[SETTLED]" 0 0 "[]"]
  with n have s: "transactions_loop demo_env [(12, demo_buyer)] [(14, demo_product)] [] [SETTLED]
      0 (Suc 0) ([], sconst 0) = ([], sconst 0)"
    by (simp add: choice_def)
  from generate_transactions_demo d e m n s show ?thesis by blast
qed

text \<open>
  Claim C5. In every generated transaction, \<open>amount\<close> is the unit price of the referenced
  product times the quantity, rounded to two decimal places, \<open>fee\<close> is
  \<open>round(amount * 0.05, 2)\<close> and \<open>totalAmount\<close> is \<open>round(amount + fee, 2)\<close>.
\<close>

theorem transactions_amounts:
  assumes "generate_transactions e db T g = Some (txs, g')"
  shows "\<forall>tx \<in> set txs.
           \<exists>p. (t_productId tx, p) \<in> set (db_products db)
             \<and> t_amount tx = py_round (p_price p * of_int (t_quantity tx)) 2
             \<and> t_fee tx = py_round (t_amount tx * 0.05) 2
             \<and> t_totalAmount tx = py_round (t_amount tx + t_fee tx) 2"
proof (rule generate_transactions_all [OF assms])
  fix st b p s h
  assume "p \<in> set (db_products db)"
  then have "(fst p, snd p) \<in> set (db_products db)" by simp
  then show "\<exists>q. (t_productId (fst (new_transaction e st b p s h)), q) \<in> set (db_products db)
      \<and> t_amount (fst (new_transaction e st b p s h))
          = py_round (p_price q * of_int (t_quantity (fst (new_transaction e st b p s h)))) 2
      \<and> t_fee (fst (new_transaction e st b p s h))
          = py_round (t_amount (fst (new_transaction e st b p s h)) * 0.05) 2
      \<and> t_totalAmount (fst (new_transaction e st b p s h))
          = py_round (t_amount (fst (new_transaction e st b p s h))
              + t_fee (fst (new_transaction e st b p s h))) 2"
    using new_transaction_refs [of e st b p s h] new_transaction_amounts [of e st b p s h]
    by metis
qed

theorem transactions_amounts_witness:
  "generate_transactions demo_env demo_db 1 (sconst 0) = Some ([demo_transaction], sconst 0)
   \<and> (\<exists>p. (t_productId demo_transaction, p) \<in> set (db_products demo_db)
         \<and> t_amount demo_transaction = py_round (p_price p * of_int (t_quantity demo_transaction)) 2
         \<and> t_fee demo_transaction = py_round (t_amount demo_transaction * 0.05) 2
         \<and> t_totalAmount demo_transaction
             = py_round (t_amount demo_transaction + t_fee demo_transaction) 2)
   \<and> t_amount demo_transaction = 175 \<and> t_fee demo_transaction = 8.75
   \<and> t_totalAmount demo_transaction = 183.75"
proof -
  from transactions_amounts [OF generate_transactions_demo]
  have "\<exists>p. (t_productId demo_transaction, p) \<in> set (db_products demo_db)
         \<and> t_amount demo_transaction = py_round (p_price p * of_int (t_quantity demo_transaction)) 2
         \<and> t_fee demo_transaction = py_round (t_amount demo_transaction * 0.05) 2
         \<and> t_totalAmount demo_transaction
             = py_round (t_amount demo_transaction + t_fee demo_transaction) 2" by simp
  moreover have "t_amount demo_transaction = 175" "t_fee demo_transaction = 8.75"
    "t_totalAmount demo_transaction = 183.75" by (simp_all add: demo_transaction_def)
  ultimately show ?thesis using generate_transactions_demo by blast
qed

text \<open>
  Claim C6. In every generated transaction, \<open>qrSignature\<close> is present exactly when the
  status is \<open>DELIVERED\<close> or \<open>SETTLED\<close> (so only then), and \<open>settledAt\<close> is present
  exactly when the status is \<open>SETTLED\<close>, in which case it is the creation time plus a
  whole number of days between 1 and 7.
\<close>

theorem transactions_proofs_of_delivery:
  assumes "generate_transactions e db T g = Some (txs, g')"
  shows "\<forall>tx \<in> set txs.
           (t_qrSignature tx \<noteq> None \<longleftrightarrow> t_status tx = DELIVERED \<or> t_status tx = SETTLED)
           \<and> (t_settledAt tx \<noteq> None \<longleftrightarrow> t_status tx = SETTLED)
           \<and> (t_status tx = SETTLED \<longrightarrow>
                (\<exists>d. 1 \<le> d \<and> d \<le> 7
                   \<and> t_settledAt tx = Some (t_createdAt tx + timedelta_days d)))"
proof (rule generate_transactions_all [OF assms])
  fix st b p s h
  show "(t_qrSignature (fst (new_transaction e st b p s h)) \<noteq> None
          \<longleftrightarrow> t_status (fst (new_transaction e st b p s h)) = DELIVERED
              \<or> t_status (fst (new_transaction e st b p s h)) = SETTLED)
      \<and> (t_settledAt (fst (new_transaction e st b p s h)) \<noteq> None
          \<longleftrightarrow> t_status (fst (new_transaction e st b p s h)) = SETTLED)
      \<and> (t_status (fst (new_transaction e st b p s h)) = SETTLED \<longrightarrow>
          (\<exists>d. 1 \<le> d \<and> d \<le> 7
             \<and> t_settledAt (fst (new_transaction e st b p s h))
                 = Some (t_createdAt (fst (new_transaction e st b p s h)) + timedelta_days d)))"
    using new_transaction_refs [of e st b p s h] new_transaction_proofs [of e st b p s h]
    by simp
qed

theorem transactions_proofs_of_delivery_witness:
  "generate_transactions demo_env demo_db 1 (sconst 0) = Some ([demo_transaction], sconst 0)
   \<and> t_status demo_transaction = SETTLED
   \<and> t_qrSignature demo_transaction \<noteq> None
   \<and> t_settledAt demo_transaction \<noteq> None
   \<and> (\<exists>d. 1 \<le> d \<and> d \<le> 7
         \<and> t_settledAt demo_transaction
             = Some (t_createdAt demo_transaction + timedelta_days d))
   \<and> t_settledAt demo_transaction = Some (t_createdAt demo_transaction + timedelta_days 1)"
proof -
  have s: "t_status demo_transaction = SETTLED" by (simp add: demo_transaction_def)
  from transactions_proofs_of_delivery [OF generate_transactions_demo] s
  have "t_qrSignature demo_transaction \<noteq> None" "t_settledAt demo_transaction \<noteq> None"
    "\<exists>d. 1 \<le> d \<and> d \<le> 7
         \<and> t_settledAt demo_transaction
             = Some (t_createdAt demo_transaction + timedelta_days d)" by simp_all
  moreover have "t_settledAt demo_transaction = Some (t_createdAt demo_transaction + timedelta_days 1)"
    by (simp add: demo_transaction_def timedelta_days_def)
  ultimately show ?thesis using generate_transactions_demo s by blast
qed

subsection \<open>Log sequences\<close>

lemma logs_to_create_statuses:
  "map fst (logs_to_create s) =
     (if s = FAILED then [INITIATED, FAILED]
      else takeWhile (\<lambda>x. x \<noteq> s) status_order @ [s])"
  by (cases s) (simp_all add: logs_to_create_def status_order_def log_sequence_def)

lemma log_entries_statuses:
  "map l_status (log_entries tx_id tx) = map fst (logs_to_create (t_status tx))"
proof -
  have "map l_status (log_entries tx_id tx)
      = map (fst \<circ> snd) (enumerate 0 (logs_to_create (t_status tx)))"
    by (simp add: log_entries_def case_prod_beta comp_def)
  also have "\<dots> = map fst (map snd (enumerate 0 (logs_to_create (t_status tx))))"
    by (simp only: map_map)
  finally show ?thesis by simp
qed

lemma log_entries_ids: "\<forall>l \<in> set (log_entries tx_id tx). l_transactionId l = tx_id"
  by (auto simp: log_entries_def)

lemma log_entries_nonempty: "log_entries tx_id tx \<noteq> []"
  by (cases "t_status tx") (simp_all add: log_entries_def logs_to_create_def status_order_def
      enumerate_eq_zip)

text \<open>What \<open>create_transactions\<close> returns and leaves in the store.\<close>

lemma create_transactions_result:
  assumes "generate_transactions e db T g = Some (txs, g1)"
  shows "create_transactions e db T g =
     (let ids = [next_id db..<next_id db + length txs];
          stored = db_transactions db @ zip ids txs;
          logs = concat (map (tx_logs stored) txs);
          n = next_id db + length txs
      in Inr (db\<lparr>db_transactions := stored,
                 db_transactionlogs := db_transactionlogs db @ zip [n..<n + length logs] logs,
                 next_id := n + length logs\<rparr>, ids, g1))"
  using assms
  by (simp add: create_transactions_def insert_batches_eq append_documents_def Let_def)

lemma create_transactions_stored:
  assumes gen: "generate_transactions e db T g = Some (txs, g1)"
    and cr: "create_transactions e db T g = Inr (db', ids, g2)"
  shows "ids = [next_id db..<next_id db + length txs]
    \<and> db_transactions db' = db_transactions db @ zip ids txs
    \<and> map snd (drop (length (db_transactionlogs db)) (db_transactionlogs db'))
        = concat (map (tx_logs (db_transactions db')) txs)"
  using cr unfolding create_transactions_result [OF gen] Let_def by auto

lemma same_triple_self: "same_triple tx (i, tx)"
  by (simp add: same_triple_def)

lemma find_append:
  "List.find P (xs @ ys) = (case List.find P xs of None \<Rightarrow> List.find P ys | Some x \<Rightarrow> Some x)"
  by (induction xs) auto

lemma stored_found:
  assumes "tx \<in> set txs" and "length ids = length txs"
  shows "\<exists>doc. find_one (same_triple tx) (old @ zip ids txs) = Some doc"
proof -
  from assms(1) obtain k where k: "k < length txs" "txs ! k = tx" by (auto simp: in_set_conv_nth)
  with assms(2) have "(ids ! k, tx) \<in> set (zip ids txs)" by (auto simp: in_set_zip)
  then have "(ids ! k, tx) \<in> set (old @ zip ids txs)" by simp
  with same_triple_self [of tx "ids ! k"]
  have "List.find (same_triple tx) (old @ zip ids txs) \<noteq> None"
    unfolding find_None_iff by blast
  then show ?thesis by (auto simp: find_one_def)
qed

text \<open>
  Claim C1. A run of \<open>create_transactions\<close> that generates transactions ends without an
  exception, and the log entries that it creates for a generated transaction with final
  status \<open>FAILED\<close> have the statuses \<open>INITIATED\<close>, \<open>FAILED\<close>, in this order; for any other
  final status \<open>S\<close> they have the statuses of the canonical order up to and including \<open>S\<close>
  (and \<open>S\<close> is in the canonical order). The log entries that the run adds to the store
  are these lists, one transaction after the other.
\<close>

theorem transaction_log_sequences:
  assumes "generate_transactions e db T g = Some (txs, g1)"
  shows "\<exists>db' ids g2. create_transactions e db T g = Inr (db', ids, g2)
     \<and> (\<forall>tx \<in> set txs.
            map l_status (tx_logs (db_transactions db') tx)
              = (if t_status tx = FAILED then [INITIATED, FAILED]
                 else takeWhile (\<lambda>s. s \<noteq> t_status tx) status_order @ [t_status tx])
            \<and> (t_status tx = FAILED \<or> t_status tx \<in> set status_order))
     \<and> map snd (drop (length (db_transactionlogs db)) (db_transactionlogs db'))
         = concat (map (tx_logs (db_transactions db')) txs)"
proof -
  from create_transactions_result [OF assms]
  obtain db' ids g2 where cr: "create_transactions e db T g = Inr (db', ids, g2)"
    by (simp add: Let_def)
  from create_transactions_stored [OF assms cr]
  have ids: "ids = [next_id db..<next_id db + length txs]"
    and st: "db_transactions db' = db_transactions db @ zip ids txs"
    and lg: "map snd (drop (length (db_transactionlogs db)) (db_transactionlogs db'))
        = concat (map (tx_logs (db_transactions db')) txs)" by simp_all
  from ids have len: "length ids = length txs" by simp
  have "map l_status (tx_logs (db_transactions db') tx)
          = (if t_status tx = FAILED then [INITIATED, FAILED]
             else takeWhile (\<lambda>s. s \<noteq> t_status tx) status_order @ [t_status tx])
        \<and> (t_status tx = FAILED \<or> t_status tx \<in> set status_order)"
    if tx: "tx \<in> set txs" for tx
  proof -
    from stored_found [OF tx len, of "db_transactions db"] st
    obtain doc where "find_one (same_triple tx) (db_transactions db') = Some doc" by auto
    then have "tx_logs (db_transactions db') tx = log_entries (fst doc) tx"
      by (simp add: tx_logs_def)
    then have "map l_status (tx_logs (db_transactions db') tx)
        = (if t_status tx = FAILED then [INITIATED, FAILED]
           else takeWhile (\<lambda>s. s \<noteq> t_status tx) status_order @ [t_status tx])"
      by (simp only: log_entries_statuses logs_to_create_statuses)
    moreover have "\<forall>t \<in> set txs. t_status t = FAILED \<or> t_status t \<in> set status_order"
    proof (rule generate_transactions_all [OF assms])
      fix st b p s h
      assume "st \<in> {SETTLED, DELIVERED, SHIPPED, ESCROWED, FAILED}"
      then show "t_status (fst (new_transaction e st b p s h)) = FAILED
          \<or> t_status (fst (new_transaction e st b p s h)) \<in> set status_order"
        using new_transaction_refs [of e st b p s h] by (auto simp: status_order_def)
    qed
    ultimately show ?thesis using tx by blast
  qed
  with lg cr show ?thesis by blast
qed

lemma log_entries_id_list:
  "map l_transactionId (log_entries tx_id tx)
     = replicate (length (logs_to_create (t_status tx))) tx_id"
  by (simp add: log_entries_def case_prod_beta comp_def map_replicate_const)

lemma logs_to_create_settled: "length (logs_to_create SETTLED) = 5"
  by (simp add: logs_to_create_def status_order_def)

lemma log_entries_settled: "length (log_entries tx_id demo_transaction) = 5"
  by (simp add: log_entries_def logs_to_create_settled demo_transaction_def)

lemma create_transactions_demo:
  "create_transactions demo_env demo_db 1 (sconst 0)
     = Inr (demo_db\<lparr>db_transactions := [(15, demo_transaction)],
                    db_transactionlogs := zip [16..<21] (log_entries 15 demo_transaction),
                    next_id := 21\<rparr>,
            [15], sconst 0)"
proof -
  have l: "tx_logs [(15, demo_transaction)] demo_transaction = log_entries 15 demo_transaction"
    by (simp add: tx_logs_def find_one_def same_triple_def)
  have d: "next_id demo_db = 15" "db_transactions demo_db = []" "db_transactionlogs demo_db = []"
    by (simp_all add: demo_db_def)
  show ?thesis
    by (subst create_transactions_result [OF generate_transactions_demo])
      (simp add: Let_def d l log_entries_settled)
qed

lemma tx_logs_demo:
  "map l_status (tx_logs [(15, demo_transaction)] demo_transaction)
     = [INITIATED, ESCROWED, SHIPPED, DELIVERED, SETTLED]"
  by (simp add: tx_logs_def find_one_def same_triple_def log_entries_statuses
      logs_to_create_statuses status_order_def demo_transaction_def)

theorem transaction_log_sequences_witness:
  "generate_transactions demo_env demo_db 1 (sconst 0) = Some ([demo_transaction], sconst 0)
   \<and> t_status demo_transaction = SETTLED
   \<and> create_transactions demo_env demo_db 1 (sconst 0)
       = Inr (demo_db\<lparr>db_transactions := [(15, demo_transaction)],
                      db_transactionlogs := zip [16..<21] (log_entries 15 demo_transaction),
                      next_id := 21\<rparr>,
              [15], sconst 0)
   \<and> map l_status (tx_logs [(15, demo_transaction)] demo_transaction)
       = takeWhile (\<lambda>s. s \<noteq> SETTLED) status_order @ [SETTLED]
   \<and> map l_status (tx_logs [(15, demo_transaction)] demo_transaction)
       = [INITIATED, ESCROWED, SHIPPED, DELIVERED, SETTLED]"
proof -
  have s: "t_status demo_transaction = SETTLED" by (simp add: demo_transaction_def)
  from transaction_log_sequences [OF generate_transactions_demo]
  obtain db' ids g2
    where cr: "create_transactions demo_env demo_db 1 (sconst 0) = Inr (db', ids, g2)"
      and sq: "\<forall>tx \<in> set [demo_transaction].
            map l_status (tx_logs (db_transactions db') tx)
              = (if t_status tx = FAILED then [INITIATED, FAILED]
                 else takeWhile (\<lambda>s. s \<noteq> t_status tx) status_order @ [t_status tx])
            \<and> (t_status tx = FAILED \<or> t_status tx \<in> set status_order)"
    by blast
  from cr have "db_transactions db' = [(15, demo_transaction)]"
    unfolding create_transactions_demo by auto
  with sq s
  have "map l_status (tx_logs [(15, demo_transaction)] demo_transaction)
       = takeWhile (\<lambda>s. s \<noteq> SETTLED) status_order @ [SETTLED]"
    by simp
  with generate_transactions_demo s tx_logs_demo create_transactions_demo show ?thesis by blast
qed

subsection \<open>The stored document that the log entries are attached to\<close>

lemma find_unique:
  assumes "k < length xs" and "P (xs ! k)" and "\<forall>j < length xs. P (xs ! j) \<longrightarrow> j = k"
  shows "List.find P xs = Some (xs ! k)"
proof -
  have "\<forall>j < k. \<not> P (xs ! j)"
  proof (intro allI impI notI)
    fix j assume "j < k" "P (xs ! j)"
    with assms(1,3) have "j = k" by (metis less_trans)
    with \<open>j < k\<close> show False by simp
  qed
  with assms(1,2) show ?thesis unfolding find_Some_iff by blast
qed

text \<open>
  What the lookup achieves. When the triple of buyer, product and creation time of a
  generated transaction is shared by no other generated transaction and by no transaction
  that the store held before the run, the transaction is stored under its own id, log
  entries are created for it, and every one of them carries that id; a transaction whose
  triple matches no stored document gets no log entry at all.
\<close>

lemma transaction_logs_own_id:
  assumes "generate_transactions e db T g = Some (txs, g1)"
    and "create_transactions e db T g = Inr (db', ids, g2)"
    and "k < length txs"
    and "\<forall>j < length txs. same_triple (txs ! k) (ids ! j, txs ! j) \<longrightarrow> j = k"
    and "\<forall>doc \<in> set (db_transactions db). \<not> same_triple (txs ! k) doc"
  shows "(ids ! k, txs ! k) \<in> set (db_transactions db')
    \<and> tx_logs (db_transactions db') (txs ! k) \<noteq> []
    \<and> (\<forall>l \<in> set (tx_logs (db_transactions db') (txs ! k)). l_transactionId l = ids ! k)
    \<and> (\<forall>stored tx. find_one (same_triple tx) stored = None \<longrightarrow> tx_logs stored tx = [])"
proof -
  from create_transactions_stored [OF assms(1,2)]
  have ids: "ids = [next_id db..<next_id db + length txs]"
    and st: "db_transactions db' = db_transactions db @ zip ids txs" by simp_all
  from ids have len: "length ids = length txs" by simp
  let ?new = "zip ids txs"
  from len assms(3) have k: "k < length ?new" "?new ! k = (ids ! k, txs ! k)" by simp_all
  have "List.find (same_triple (txs ! k)) (db_transactions db) = None"
    using assms(5) unfolding find_None_iff by blast
  moreover have "List.find (same_triple (txs ! k)) ?new = Some (?new ! k)"
  proof (rule find_unique [OF k(1)])
    show "same_triple (txs ! k) (?new ! k)" by (simp add: k(2) same_triple_self)
    show "\<forall>j < length ?new. same_triple (txs ! k) (?new ! j) \<longrightarrow> j = k"
      using assms(4) len by simp
  qed
  ultimately have f: "find_one (same_triple (txs ! k)) (db_transactions db') = Some (ids ! k, txs ! k)"
    by (simp add: find_one_def st find_append k(2))
  then have l: "tx_logs (db_transactions db') (txs ! k) = log_entries (ids ! k) (txs ! k)"
    by (simp add: tx_logs_def)
  from k have "(ids ! k, txs ! k) \<in> set ?new" by (metis nth_mem)
  with st have m: "(ids ! k, txs ! k) \<in> set (db_transactions db')" by simp
  have n: "\<forall>stored tx. find_one (same_triple tx) stored = None \<longrightarrow> tx_logs stored tx = []"
    by (simp add: tx_logs_def)
  from m l n log_entries_ids [of "ids ! k" "txs ! k"] log_entries_nonempty [of "ids ! k" "txs ! k"]
  show ?thesis by simp
qed

lemma generate_transactions_demo_with:
  "generate_transactions demo_env (demo_db_with old) 1 (sconst 0)
     = Some ([demo_transaction], sconst 0)"
proof -
  have "generate_transactions demo_env (demo_db_with old) 1 (sconst 0)
      = generate_transactions demo_env demo_db 1 (sconst 0)"
    by (simp add: generate_transactions_def demo_db_with_def cong: if_cong)
  then show ?thesis by (simp only: generate_transactions_demo)
qed

lemma create_transactions_demo_with:
  assumes "tx_logs [(9, old), (15, demo_transaction)] demo_transaction
      = log_entries i demo_transaction"
  shows "create_transactions demo_env (demo_db_with old) 1 (sconst 0)
     = Inr ((demo_db_with old)\<lparr>db_transactions := [(9, old), (15, demo_transaction)],
                    db_transactionlogs := zip [16..<21] (log_entries i demo_transaction),
                    next_id := 21\<rparr>,
            [15], sconst 0)"
proof -
  have d: "next_id (demo_db_with old) = 15" "db_transactions (demo_db_with old) = [(9, old)]"
    "db_transactionlogs (demo_db_with old) = []"
    by (simp_all add: demo_db_with_def demo_db_def)
  show ?thesis
    by (subst create_transactions_result [OF generate_transactions_demo_with])
      (simp add: Let_def d assms log_entries_settled)
qed

lemma tx_logs_clash:
  "tx_logs [(9, demo_clash), (15, demo_transaction)] demo_transaction
     = log_entries 9 demo_transaction"
  by (simp add: tx_logs_def find_one_def same_triple_def demo_clash_def)

lemma tx_logs_other:
  "tx_logs [(9, demo_other), (15, demo_transaction)] demo_transaction
     = log_entries 15 demo_transaction"
  by (simp add: tx_logs_def find_one_def same_triple_def demo_other_def demo_clash_def
      demo_transaction_def)

lemma log_entries_demo_ids:
  "map l_transactionId (log_entries i demo_transaction) = [i, i, i, i, i]"
proof -
  have "t_status demo_transaction = SETTLED" by (simp add: demo_transaction_def)
  then show ?thesis by (simp add: log_entries_id_list logs_to_create_settled numeral_eq_Suc)
qed

lemma transaction_logs_own_id_demo:
  "generate_transactions demo_env (demo_db_with demo_other) 1 (sconst 0)
     = Some ([demo_transaction], sconst 0)
   \<and> create_transactions demo_env (demo_db_with demo_other) 1 (sconst 0)
       = Inr ((demo_db_with demo_other)
                \<lparr>db_transactions := [(9, demo_other), (15, demo_transaction)],
                 db_transactionlogs := zip [16..<21] (log_entries 15 demo_transaction),
                 next_id := 21\<rparr>,
              [15], sconst 0)
   \<and> \<not> same_triple demo_transaction (9, demo_other)
   \<and> map l_transactionId (log_entries 15 demo_transaction) = [15, 15, 15, 15, 15]
   \<and> find_one (same_triple demo_transaction) [] = None
   \<and> tx_logs [] demo_transaction = []"
proof -
  note cr = create_transactions_demo_with [OF tx_logs_other]
  have k: "(0::nat) < length [demo_transaction]" by simp
  have u: "\<forall>j < length [demo_transaction].
      same_triple ([demo_transaction] ! 0) ([15] ! j, [demo_transaction] ! j) \<longrightarrow> j = 0"
    by simp
  have n: "\<not> same_triple demo_transaction (9, demo_other)"
    by (simp add: same_triple_def demo_other_def demo_clash_def demo_transaction_def)
  then have f: "\<forall>doc \<in> set (db_transactions (demo_db_with demo_other)).
      \<not> same_triple ([demo_transaction] ! 0) doc"
    by (simp add: demo_db_with_def)
  note t = transaction_logs_own_id [OF generate_transactions_demo_with cr k u f]
  have e: "find_one (same_triple demo_transaction) [] = None" by (simp add: find_one_def)
  from t have "find_one (same_triple demo_transaction) [] = None
      \<longrightarrow> tx_logs [] demo_transaction = []" by blast
  with e have l: "tx_logs [] demo_transaction = []" by simp
  from generate_transactions_demo_with [of demo_other] cr n log_entries_demo_ids [of 15] e l
  show ?thesis by simp
qed

text \<open>
  Claim C10 is not met by the code. The script looks the transaction that it has just
  inserted up by buyer, product and creation time, although it holds the inserted ids,
  and \<open>find_one\<close> answers with the first stored document of that triple. In a store that
  already holds a transaction with the buyer, the product and the creation time of the
  new one, the run generates one transaction (its triple is unique among the generated
  ones) and stores it under the id 15, but the five log entries that it stores carry the
  id 9 of the older document.
\<close>

theorem create_transactions_logs_of_older_document:
  "generate_transactions demo_env (demo_db_with demo_clash) 1 (sconst 0)
     = Some ([demo_transaction], sconst 0)
   \<and> same_triple demo_transaction (9, demo_clash)
   \<and> create_transactions demo_env (demo_db_with demo_clash) 1 (sconst 0)
       = Inr ((demo_db_with demo_clash)
                \<lparr>db_transactions := [(9, demo_clash), (15, demo_transaction)],
                 db_transactionlogs := zip [16..<21] (log_entries 9 demo_transaction),
                 next_id := 21\<rparr>,
              [15], sconst 0)
   \<and> map l_transactionId (log_entries 9 demo_transaction) = [9, 9, 9, 9, 9]"
proof -
  have "same_triple demo_transaction (9, demo_clash)"
    by (simp add: same_triple_def demo_clash_def)
  with generate_transactions_demo_with [of demo_clash]
    create_transactions_demo_with [OF tx_logs_clash] log_entries_demo_ids [of 9]
  show ?thesis by simp
qed

section \<open>Cooperatives and their owners\<close>

lemma new_cooperative_owner: "c_userId (fst (new_cooperative e producer_id i g)) = Some producer_id"
  by (simp add: new_cooperative_def Let_def case_prod_beta)

lemma unused_producer:
  assumes "distinct producer_ids" and "distinct used" and "set used \<subseteq> set producer_ids"
    and "length used < length producer_ids"
  shows "filter (\<lambda>pid. pid \<notin> set used) producer_ids \<noteq> []"
proof -
  from assms(1,2,4) have "card (set used) < card (set producer_ids)"
    by (simp add: distinct_card)
  with assms(3) have "set used \<noteq> set producer_ids" by auto
  with assms(3) obtain x where "x \<in> set producer_ids" "x \<notin> set used" by blast
  then show ?thesis by (auto simp: filter_empty_conv)
qed

lemma cooperatives_loop_inv:
  assumes d: "distinct producer_ids"
  shows "cooperatives_loop e producer_ids i n (used, coops, g) = (used', coops', g')
     \<Longrightarrow> distinct used \<Longrightarrow> set used \<subseteq> set producer_ids
     \<Longrightarrow> map c_userId coops = map Some (rev used)
     \<Longrightarrow> length used + n \<le> length producer_ids
     \<Longrightarrow> distinct used' \<and> set used' \<subseteq> set producer_ids
        \<and> map c_userId coops' = map Some (rev used') \<and> length used' = length used + n"
proof (induction n arbitrary: i used coops g)
  case 0
  then show ?case by simp
next
  case (Suc n)
  let ?av = "filter (\<lambda>pid. pid \<notin> set used) producer_ids"
  from Suc.prems(5) have "length used < length producer_ids" by simp
  from unused_producer [OF d Suc.prems(2,3) this] have ne: "?av \<noteq> []" .
  obtain pid g1 where ch: "choice ?av g = (pid, g1)" by (cases "choice ?av g")
  from choice_member [OF ne ch] have pid: "pid \<in> set producer_ids" "pid \<notin> set used" by auto
  obtain c g2 where nc: "new_cooperative e pid i g1 = (c, g2)"
    by (cases "new_cooperative e pid i g1")
  from new_cooperative_owner [of e pid i g1] nc have own: "c_userId c = Some pid" by simp
  from Suc.prems(1) ne ch nc
  have l: "cooperatives_loop e producer_ids (Suc i) n (pid # used, coops @ [c], g2)
      = (used', coops', g')"
    by (simp add: Let_def)
  have "distinct (pid # used)" using pid Suc.prems(2) by simp
  moreover have "set (pid # used) \<subseteq> set producer_ids" using pid Suc.prems(3) by simp
  moreover have "map c_userId (coops @ [c]) = map Some (rev (pid # used))"
    using own Suc.prems(4) by simp
  moreover have "length (pid # used) + n \<le> length producer_ids" using Suc.prems(5) by simp
  ultimately have "distinct used' \<and> set used' \<subseteq> set producer_ids
        \<and> map c_userId coops' = map Some (rev used') \<and> length used' = length (pid # used) + n"
    by (rule Suc.IH [OF l])
  then show ?case by simp
qed

lemma distinct_map_fst_filter:
  "distinct (map fst xs) \<Longrightarrow> distinct (map fst (filter P xs))"
  by (rule distinct_map_filter)

lemma producers_distinct:
  assumes "distinct (map fst us)"
  shows "distinct (map fst (limit cnt (filter P us)))"
proof -
  from assms have "distinct (map fst (filter P us))" by (rule distinct_map_filter)
  then have "distinct (take cnt (map fst (filter P us)))" by (rule distinct_take)
  then have "distinct (map fst (take cnt (filter P us)))" by (simp only: take_map)
  with \<open>distinct (map fst (filter P us))\<close> show ?thesis by (simp add: limit_def)
qed

text \<open>
  What holds in every run. The cooperatives that \<open>create_cooperatives\<close> generates have
  pairwise different owners, every owner is a user of the store with the role \<open>PRODUCER\<close>
  (user ids are unique in the store), their number is the requested number \<open>M\<close> capped to
  the number \<open>P\<close> of producers in the store, and the warning is printed exactly when
  \<open>P < M\<close>. When at least one cooperative is generated, the run adds the cooperatives to
  the store and returns their ids; when none is, the insertion raises \<open>TypeError\<close>.
\<close>

lemma cooperatives_distinct_owners:
  assumes "distinct (map fst (db_users db))"
    and "generate_cooperatives e db cnt g = (warned, coops, g')"
  shows "distinct (map c_userId coops)
    \<and> (\<forall>c \<in> set coops. \<exists>pid u. c_userId c = Some pid \<and> (pid, u) \<in> set (db_users db)
           \<and> u_role u = PRODUCER)
    \<and> length coops = min cnt (length (filter (\<lambda>(i, u). u_role u = PRODUCER) (db_users db)))
    \<and> (warned \<longleftrightarrow> length (filter (\<lambda>(i, u). u_role u = PRODUCER) (db_users db)) < cnt)
    \<and> create_cooperatives e db user_ids cnt g
        = (warned,
           if coops = [] then Inl TypeError
           else Inr (db\<lparr>db_cooperatives :=
                          db_cooperatives db
                            @ zip [next_id db..<next_id db + length coops] coops,
                        next_id := next_id db + length coops\<rparr>,
                     [next_id db..<next_id db + length coops], g'))"
proof -
  let ?prod = "filter (\<lambda>(i, u). u_role u = PRODUCER) (db_users db)"
  let ?pids = "map fst (limit cnt ?prod)"
  let ?cnt' = "if length ?pids < cnt then length ?pids else cnt"
  obtain used c2 g2 where l0: "cooperatives_loop e ?pids 0 ?cnt' ([], [], g) = (used, c2, g2)"
    by (cases "cooperatives_loop e ?pids 0 ?cnt' ([], [], g)")
  from assms(2) have "(length ?pids < cnt, c2, g2) = (warned, coops, g')"
    unfolding generate_cooperatives_def Let_def l0 prod.case .
  with l0 have l: "cooperatives_loop e ?pids 0 ?cnt' ([], [], g) = (used, coops, g')"
    and w: "warned \<longleftrightarrow> length ?pids < cnt"
    by auto
  have d: "distinct ?pids" using assms(1) by (rule producers_distinct)
  have len: "length (limit cnt ?prod) = (if cnt = 0 then length ?prod else min cnt (length ?prod))"
    by (simp add: limit_def min.commute)
  have c': "?cnt' = min cnt (length ?prod)" by (simp add: len)
  have le: "?cnt' \<le> length ?pids" by simp
  have "distinct used \<and> set used \<subseteq> set ?pids
        \<and> map c_userId coops = map Some (rev used) \<and> length used = length ([]::oid list) + ?cnt'"
    by (rule cooperatives_loop_inv [OF d l]) (use le in simp_all)
  then have inv: "distinct used" "set used \<subseteq> set ?pids"
    "map c_userId coops = map Some (rev used)" "length used = ?cnt'"
    by simp_all
  from inv(1,3) have d1: "distinct (map c_userId coops)" by (simp add: distinct_map)
  have d2: "\<exists>pid u. c_userId c = Some pid \<and> (pid, u) \<in> set (db_users db) \<and> u_role u = PRODUCER"
    if "c \<in> set coops" for c
  proof -
    from that have "c_userId c \<in> set (map c_userId coops)" by simp
    with inv(3) obtain pid where pid: "c_userId c = Some pid" "pid \<in> set used" by auto
    with inv(2) have "pid \<in> set ?pids" by blast
    then obtain u where "(pid, u) \<in> set (limit cnt ?prod)" by auto
    then have "(pid, u) \<in> set ?prod" by (auto simp: limit_def dest: in_set_takeD split: if_splits)
    with pid(1) show ?thesis by auto
  qed
  from inv(3) have "length coops = length used" by (metis length_map length_rev)
  with inv(4) c' have d3: "length coops = min cnt (length ?prod)" by simp
  from w have d4: "warned \<longleftrightarrow> length ?prod < cnt" by (auto simp: len split: if_splits)
  have d5: "create_cooperatives e db user_ids cnt g
        = (warned,
           if coops = [] then Inl TypeError
           else Inr (db\<lparr>db_cooperatives :=
                          db_cooperatives db
                            @ zip [next_id db..<next_id db + length coops] coops,
                        next_id := next_id db + length coops\<rparr>,
                     [next_id db..<next_id db + length coops], g'))"
    using assms(2) by (simp add: create_cooperatives_def insert_many_def append_documents_def)
  from d1 d2 d3 d4 d5 show ?thesis by blast
qed

lemma zfill_one_digit: "zfill 4 [c] = [48, 48, 48, c]"
  by (simp add: zfill_def numeral_3_eq_3)

lemma str_int_2020: "str_int 2020 = asc ''2020''"
  by (simp add: str_int_def str_nat.simps asc_def)

lemma new_cooperative_zero_tape:
  "new_cooperative demo_env pid i (sconst 0)
     = (demo_new_cooperative\<lparr>c_userId := Some pid,
          c_registrationNumber := asc ''REG-CAS-2020-'' @ zfill 4 (str_nat (i + 1))\<rparr>,
        sconst 0)"
  by (simp add: new_cooperative_def generate_cooperative_name_def choice_def
      MOROCCAN_REGIONS_def PRODUCT_CATEGORIES_def remove_char_def upper_def upper_cp_def
      str_int_2020 randint_def
      uniform_def random_float_def py_round_def round_half_even_def demo_env_def
      demo_text_def street_types_def date_time_between_def timedelta_days_def
      demo_new_cooperative_def asc_def)

lemma new_cooperative_demo:
  "new_cooperative demo_env 11 0 (sconst 0) = (demo_new_cooperative, sconst 0)"
  by (simp add: new_cooperative_zero_tape str_nat.simps zfill_one_digit demo_new_cooperative_def
      asc_def)

lemma new_cooperative_second:
  "new_cooperative demo_env 16 (Suc 0) (sconst 0) = (demo_second_cooperative, sconst 0)"
  by (simp add: new_cooperative_zero_tape str_nat.simps zfill_one_digit
      demo_second_cooperative_def demo_new_cooperative_def asc_def)

lemma producers_two:
  "filter (\<lambda>(i, u). u_role u = PRODUCER) (db_users demo_db_two_producers)
     = [(11, demo_producer), (16, demo_second_producer)]"
  by (simp add: demo_db_two_producers_def demo_admin_def demo_producer_def demo_buyer_def
      demo_second_producer_def)

lemma generate_cooperatives_two:
  "generate_cooperatives demo_env demo_db_two_producers 3 (sconst 0)
     = (True, [demo_new_cooperative, demo_second_cooperative], sconst 0)"
proof -
  have l: "limit 3 [(11, demo_producer), (16, demo_second_producer)]
      = [(11::nat, demo_producer), (16, demo_second_producer)]"
    by (simp add: limit_def)
  have s: "cooperatives_loop demo_env [11, 16] 0 (Suc (Suc 0)) ([], [], sconst 0)
      = ([16, 11], [demo_new_cooperative, demo_second_cooperative], sconst 0)"
    by (simp add: choice_def new_cooperative_demo new_cooperative_second)
  show ?thesis
    unfolding generate_cooperatives_def Let_def producers_two l
    by (simp add: s del: cooperatives_loop.simps)
qed

lemma cooperatives_distinct_owners_demo:
  "distinct (map fst (db_users demo_db_two_producers))
   \<and> generate_cooperatives demo_env demo_db_two_producers 3 (sconst 0)
       = (True, [demo_new_cooperative, demo_second_cooperative], sconst 0)
   \<and> length (filter (\<lambda>(i, u). u_role u = PRODUCER) (db_users demo_db_two_producers)) = 2
   \<and> map c_userId [demo_new_cooperative, demo_second_cooperative] = [Some 11, Some 16]
   \<and> distinct (map c_userId [demo_new_cooperative, demo_second_cooperative])
   \<and> create_cooperatives demo_env demo_db_two_producers [10, 11, 12, 16] 3 (sconst 0)
       = (True,
          Inr (demo_db_two_producers
                 \<lparr>db_cooperatives := [(17, demo_new_cooperative), (18, demo_second_cooperative)],
                  next_id := 19\<rparr>,
               [17, 18], sconst 0))"
proof -
  have d: "distinct (map fst (db_users demo_db_two_producers))"
    by (simp add: demo_db_two_producers_def)
  have n: "length (filter (\<lambda>(i, u). u_role u = PRODUCER) (db_users demo_db_two_producers)) = 2"
    by (simp add: producers_two)
  have o: "map c_userId [demo_new_cooperative, demo_second_cooperative] = [Some 11, Some 16]"
    by (simp add: demo_new_cooperative_def demo_second_cooperative_def)
  have s: "next_id demo_db_two_producers = 17" "db_cooperatives demo_db_two_producers = []"
    by (simp_all add: demo_db_two_producers_def)
  note t = cooperatives_distinct_owners [OF d generate_cooperatives_two, of "[10, 11, 12, 16]"]
  from t have "distinct (map c_userId [demo_new_cooperative, demo_second_cooperative])"
    by blast
  moreover from t
  have "create_cooperatives demo_env demo_db_two_producers [10, 11, 12, 16] 3 (sconst 0)
       = (True,
          Inr (demo_db_two_producers
                 \<lparr>db_cooperatives := [(17, demo_new_cooperative), (18, demo_second_cooperative)],
                  next_id := 19\<rparr>,
               [17, 18], sconst 0))"
    by (simp add: s)
  ultimately show ?thesis using d n o generate_cooperatives_two by simp
qed

text \<open>
  Claim C4 is not met by the code. The script prints the warning and caps the count to
  the number of producers, but it passes the list of cooperatives to \<open>insert_many\<close> also
  when the list is empty, where the insertion of the transaction logs stands under
  \<open>if transaction_logs\<close>. With no producer in the store and two cooperatives requested,
  the warning is printed, no cooperative is generated, and the run ends with the
  \<open>TypeError\<close> of \<open>insert_many\<close>: an error, where the claim has a count capped to 0 with
  a warning.
\<close>

theorem create_cooperatives_without_producers:
  "filter (\<lambda>(i, u). u_role u = PRODUCER) (db_users demo_db_no_producer) = []
   \<and> generate_cooperatives demo_env demo_db_no_producer 2 (sconst 0) = (True, [], sconst 0)
   \<and> create_cooperatives demo_env demo_db_no_producer [10, 12] 2 (sconst 0)
       = (True, Inl TypeError)"
proof -
  have p: "filter (\<lambda>(i, u). u_role u = PRODUCER) (db_users demo_db_no_producer) = []"
    by (simp add: demo_db_no_producer_def demo_admin_def demo_buyer_def)
  have g: "generate_cooperatives demo_env demo_db_no_producer 2 (sconst 0)
      = (True, [], sconst 0)"
    by (simp add: generate_cooperatives_def p limit_def)
  from p g show ?thesis by (simp add: create_cooperatives_def insert_many_def)
qed

section \<open>Users: emails, phone numbers and the admin\<close>

text \<open>
  What the two sets do achieve: the emails of all users are pairwise different, and so are
  the phone numbers of the users other than the admin.
\<close>

lemma email_loop_fresh: "email_loop b i used email counter \<notin> set used"
proof (induction b i used email counter rule: email_loop.induct)
  case (1 b i used email counter)
  show ?case
  proof (cases "email \<in> set used")
    case True
    with "1.IH" show ?thesis by (simp add: email_loop.simps [of b i used email counter])
  next
    case False
    then show ?thesis by (simp add: email_loop.simps [of b i used email counter])
  qed
qed

lemma email_loop_form:
  "email_loop b i used email counter = email
   \<or> (\<exists>c. email_loop b i used email counter = email_candidate b i c)"
proof (induction b i used email counter rule: email_loop.induct)
  case (1 b i used email counter)
  show ?case
  proof (cases "email \<in> set used")
    case True
    with "1.IH" show ?thesis
      by (auto simp: email_loop.simps [of b i used email counter])
  next
    case False
    then show ?thesis by (simp add: email_loop.simps [of b i used email counter])
  qed
qed

lemma not_admin_email:
  assumes "46 \<in> set b"
  shows "b @ rest @ asc ''@sou9na.ma'' \<noteq> asc ''admin@sou9na.ma''"
proof
  assume "b @ rest @ asc ''@sou9na.ma'' = asc ''admin@sou9na.ma''"
  then have "(b @ rest) @ asc ''@sou9na.ma'' = asc ''admin'' @ asc ''@sou9na.ma''"
    by (simp add: asc_def)
  then have "b @ rest = asc ''admin''" by (simp only: append_same_eq)
  with assms have "46 \<in> set (asc ''admin'')" by (metis Un_iff set_append)
  then show False by (simp add: asc_def)
qed

lemma unique_phone_fresh_pair:
  assumes ret: "unique_phone used g = Some r"
  shows "fst r \<notin> set used"
proof (rule unique_phone.raw_induct [where P = "\<lambda>used g r. fst r \<notin> set used", OF _ ret])
  fix f used g r
  assume IH: "\<And>used g r. f used g = Some r \<Longrightarrow> fst r \<notin> set used"
    and eq: "(case generate_moroccan_phone g of
        (phone, g') \<Rightarrow> if phone \<in> set used then f used g' else Some (phone, g')) = Some r"
  obtain p h where gp: "generate_moroccan_phone g = (p, h)" by (cases "generate_moroccan_phone g")
  show "fst r \<notin> set used"
  proof (cases "p \<in> set used")
    case True
    with eq gp have "f used h = Some r" by simp
    then show ?thesis by (rule IH)
  next
    case False
    with eq gp show ?thesis by auto
  qed
qed

lemma unique_phone_fresh: "unique_phone used g = Some (phone, g') \<Longrightarrow> phone \<notin> set used"
  using unique_phone_fresh_pair [of used g "(phone, g')"] by simp

lemma new_user_step:
  assumes "new_user e pw r i (ue, up, us, g) = Some (ue', up', us', g')"
  shows "\<exists>u. us' = us @ [u] \<and> ue' = u_email u # ue \<and> up' = u_phone u # up
    \<and> u_email u \<notin> set ue \<and> u_phone u \<notin> set up
    \<and> u_email u \<noteq> asc ''admin@sou9na.ma'' \<and> u_role u = r"
proof -
  obtain first_name g1 where c1: "choice MOROCCAN_FIRST_NAMES g = (first_name, g1)"
    by (cases "choice MOROCCAN_FIRST_NAMES g")
  obtain last_name g2 where c2: "choice MOROCCAN_LAST_NAMES g1 = (last_name, g2)"
    by (cases "choice MOROCCAN_LAST_NAMES g1")
  define b where "b = lower first_name @ asc ''.'' @ lower last_name"
  define email where "email = email_loop b i ue (b @ str_nat i @ asc ''@sou9na.ma'') 0"
  from assms c1 c2 obtain phone g3 where up: "unique_phone up g2 = Some (phone, g3)"
    by (auto simp: new_user_def Let_def split: option.splits)
  obtain created g4 where dt: "date_time_between (datetime_now e) 730 g3 = (created, g4)"
    by (cases "date_time_between (datetime_now e) 730 g3")
  let ?u = "\<lparr>u_email = email, u_phone = phone, u_passwordHash = pw, u_role = r,
             u_createdAt = created, u_updatedAt = datetime_now e\<rparr>"
  from assms c1 c2 up dt have r: "ue' = email # ue" "up' = phone # up" "us' = us @ [?u]"
    by (simp_all add: new_user_def Let_def b_def email_def)
  have dot: "46 \<in> set b" by (simp add: b_def asc_def)
  have fresh: "email \<notin> set ue" unfolding email_def by (rule email_loop_fresh)
  have "email = b @ str_nat i @ asc ''@sou9na.ma'' \<or> (\<exists>c. email = email_candidate b i c)"
    unfolding email_def by (rule email_loop_form)
  then have na: "email \<noteq> asc ''admin@sou9na.ma''"
  proof
    assume "email = b @ str_nat i @ asc ''@sou9na.ma''"
    with not_admin_email [OF dot, of "str_nat i"] show ?thesis by simp
  next
    assume "\<exists>c. email = email_candidate b i c"
    then obtain c where "email = b @ (str_nat i @ str_nat c) @ asc ''@sou9na.ma''"
      by (auto simp: email_candidate_def)
    with not_admin_email [OF dot, of "str_nat i @ str_nat c"] show ?thesis by simp
  qed
  from unique_phone_fresh [OF up] have pf: "phone \<notin> set up" .
  from r fresh na pf show ?thesis by auto
qed

lemma users_loop_inv:
  "users_loop e pw r i n st = Some st' \<Longrightarrow> users_inv roles st \<Longrightarrow> r \<in> roles
     \<Longrightarrow> users_inv roles st'
         \<and> length (fst (snd (snd st'))) = length (fst (snd (snd st))) + n"
proof (induction n arbitrary: i st)
  case 0
  then show ?case by simp
next
  case (Suc n)
  from Suc.prems(1) obtain st1 where nu: "new_user e pw r i st = Some st1"
    and rest: "users_loop e pw r (Suc i) n st1 = Some st'"
    by (auto split: option.splits)
  obtain ue up us g where st: "st = (ue, up, us, g)" by (cases st) auto
  obtain ue1 up1 us1 g1 where st1: "st1 = (ue1, up1, us1, g1)" by (cases st1) auto
  from new_user_step [OF nu [unfolded st st1]] obtain u
    where u: "us1 = us @ [u]" "ue1 = u_email u # ue" "up1 = u_phone u # up"
      "u_email u \<notin> set ue" "u_phone u \<notin> set up" "u_email u \<noteq> asc ''admin@sou9na.ma''"
      "u_role u = r"
    by blast
  from Suc.prems(2) have "us \<noteq> []" by (simp add: users_inv_def st)
  then have tl: "tl (us @ [u]) = tl us @ [u]" by simp
  from Suc.prems(2,3) u tl have "users_inv roles st1"
    by (auto simp: users_inv_def st st1)
  from Suc.IH [OF rest this Suc.prems(3)] u(1) show ?case by (simp add: st st1)
qed

lemma generate_users_unique:
  assumes "generate_users e cnt g = Some (us, g')"
  shows "distinct (map u_email us) \<and> distinct (map u_phone (tl us))
    \<and> u_role (hd us) = ADMIN \<and> u_role ` set (tl us) \<subseteq> {PRODUCER, BUYER}
    \<and> length us = 1 + (cnt - 1)"
proof -
  let ?pw = "hash_password e (asc ''TestPass123!'')"
  let ?admin = "\<lparr>u_email = asc ''admin@sou9na.ma'', u_phone = asc ''212612000000'',
                   u_passwordHash = ?pw, u_role = ADMIN,
                   u_createdAt = datetime_now e, u_updatedAt = datetime_now e\<rparr>"
  let ?pc = "(cnt - 1) div 5"
  from assms obtain st1 ue up where
    l1: "users_loop e ?pw PRODUCER 0 ?pc ([], [], [?admin], g) = Some st1"
    and l2: "users_loop e ?pw BUYER 0 (cnt - 1 - ?pc) st1 = Some (ue, up, us, g')"
    by (auto simp: generate_users_def Let_def split: option.splits)
  have i0: "users_inv {PRODUCER, BUYER} ([], [], [?admin], g)" by (simp add: users_inv_def)
  from users_loop_inv [OF l1 i0] have i1: "users_inv {PRODUCER, BUYER} st1"
    and n1: "length (fst (snd (snd st1))) = 1 + ?pc" by simp_all
  from users_loop_inv [OF l2 i1] n1 have i2: "users_inv {PRODUCER, BUYER} (ue, up, us, g')"
    and n2: "length us = 1 + ?pc + (cnt - 1 - ?pc)" by simp_all
  from i2 have ne: "us \<noteq> []" and em: "map u_email (tl us) = rev ue"
    and ph: "map u_phone (tl us) = rev up" and d: "distinct ue" "distinct up"
    and na: "asc ''admin@sou9na.ma'' \<notin> set ue" and ro: "u_role ` set (tl us) \<subseteq> {PRODUCER, BUYER}"
    by (simp_all add: users_inv_def)
  have hd: "hd us = ?admin"
  proof -
    have k: "users_loop e pw r i n (ue0, up0, us0, g0) = Some (ue1, up1, us1, g1) \<Longrightarrow> us0 \<noteq> []
        \<Longrightarrow> hd us1 = hd us0" for pw r i n ue0 up0 us0 g0 ue1 up1 us1 g1
    proof (induction n arbitrary: i ue0 up0 us0 g0)
      case 0
      then show ?case by simp
    next
      case (Suc n)
      from Suc.prems(1) obtain st1 where nu: "new_user e pw r i (ue0, up0, us0, g0) = Some st1"
        and rest: "users_loop e pw r (Suc i) n st1 = Some (ue1, up1, us1, g1)"
        by (auto split: option.splits)
      obtain a b c d where st1: "st1 = (a, b, c, d)" by (cases st1) auto
      from new_user_step [OF nu [unfolded st1]] obtain u where "c = us0 @ [u]" by blast
      with Suc.IH [OF rest [unfolded st1]] Suc.prems(2) show ?case by simp
    qed
    obtain a b c d where st1: "st1 = (a, b, c, d)" by (cases st1) auto
    from k [OF l1 [unfolded st1]] have "hd c = ?admin" by simp
    moreover from i1 have "c \<noteq> []" by (simp add: users_inv_def st1)
    ultimately show ?thesis using k [OF l2 [unfolded st1]] by simp
  qed
  from ne have us: "us = hd us # tl us" by simp
  have "distinct (map u_email us)"
  proof -
    have "map u_email us = asc ''admin@sou9na.ma'' # rev ue"
      by (subst us) (simp add: hd em)
    with d(1) na show ?thesis by simp
  qed
  moreover have "distinct (map u_phone (tl us))" using ph d(2) by simp
  moreover have "u_role (hd us) = ADMIN" by (simp add: hd)
  moreover have "length us = 1 + (cnt - 1)"
  proof -
    have "?pc \<le> cnt - 1" by simp
    with n2 show ?thesis by linarith
  qed
  ultimately show ?thesis using ro by blast
qed

subsection \<open>The phone number of the admin\<close>

lemma random_digits_zero: "random_digits 6 (sconst 0) = (asc ''000000'', sconst 0)"
  by (simp add: numeral_eq_Suc randint_def str_int_def str_nat.simps asc_def)

lemma phone_zero: "generate_moroccan_phone (sconst 0) = (asc ''212612000000'', sconst 0)"
proof -
  have "prefixes ! 0 = asc ''612''"
    by (simp add: prefixes_def str_nat.simps asc_def)
  moreover have "length prefixes = 68" by (simp add: prefixes_def)
  ultimately show ?thesis
    by (simp add: generate_moroccan_phone_def choice_def random_digits_zero asc_def)
qed

lemma unique_phone_zero: "unique_phone [] (sconst 0) = Some (asc ''212612000000'', sconst 0)"
  by (subst unique_phone.simps) (simp add: phone_zero)

lemma email_zero:
  "email_loop (lower (asc ''Ahmed'') @ asc ''.'' @ lower (asc ''Alaoui'')) 0 []
      (lower (asc ''Ahmed'') @ asc ''.'' @ lower (asc ''Alaoui'') @ str_nat 0 @ asc ''@sou9na.ma'') 0
     = asc ''ahmed.alaoui0@sou9na.ma''"
  by (subst email_loop.simps) (simp add: lower_def lower_cp_def str_nat.simps asc_def)

lemma new_user_zero:
  "new_user demo_env pw BUYER 0 ([], [], us, sconst 0)
     = Some ([asc ''ahmed.alaoui0@sou9na.ma''], [asc ''212612000000''],
             us @ [demo_new_buyer\<lparr>u_passwordHash := pw\<rparr>], sconst 0)"
proof -
  have f: "MOROCCAN_FIRST_NAMES ! 0 = asc ''Ahmed''" by (simp add: MOROCCAN_FIRST_NAMES_def)
  have l: "MOROCCAN_LAST_NAMES ! 0 = asc ''Alaoui''" by (simp add: MOROCCAN_LAST_NAMES_def)
  have nf: "length MOROCCAN_FIRST_NAMES = 40" by (simp add: MOROCCAN_FIRST_NAMES_def)
  have nl: "length MOROCCAN_LAST_NAMES = 42" by (simp add: MOROCCAN_LAST_NAMES_def)
  show ?thesis
    using email_zero
    by (simp add: new_user_def choice_def f l nf nl unique_phone_zero date_time_between_def
        timedelta_days_def demo_env_def demo_new_buyer_def Let_def)
qed

lemma generate_users_two:
  "generate_users demo_env 2 (sconst 0) = Some ([demo_new_admin, demo_new_buyer], sconst 0)"
proof -
  have n: "datetime_now demo_env = 1700000000" by (simp add: demo_env_def)
  have u: "demo_new_buyer\<lparr>u_passwordHash := hash_password demo_env (asc ''TestPass123!'')\<rparr>
      = demo_new_buyer"
    by (simp add: demo_new_buyer_def)
  show ?thesis
    by (simp add: generate_users_def new_user_zero demo_new_admin_def n u Let_def)
qed

text \<open>
  Claim C2 is not met by the code: the admin's phone number is not put into
  \<open>used_phones\<close>, and \<open>generate_moroccan_phone\<close> can produce it. For the target count
  2, draws that choose the prefix \<open>612\<close> and six digits \<open>0\<close> give the one buyer the phone
  number of the admin.
\<close>

theorem create_users_admin_phone_reused:
  "generate_users demo_env 2 (sconst 0) = Some ([demo_new_admin, demo_new_buyer], sconst 0)
   \<and> u_phone demo_new_admin = asc ''212612000000''
   \<and> u_phone demo_new_buyer = asc ''212612000000''
   \<and> \<not> distinct (map u_phone [demo_new_admin, demo_new_buyer])"
  using generate_users_two by (simp add: demo_new_admin_def demo_new_buyer_def)

end
